theory Spec2Isabelle
  imports Main "HOL-Library.Sublist"
begin

section \<open>Strings as the scripts use them\<close>

text \<open>
  A JavaScript string is modelled as a \<^typ>\<open>string\<close> of ASCII characters. A field of a job
  object that is missing, \<open>undefined\<close> or \<open>null\<close> is \<open>None\<close>; the scripts only ever
  test such fields for truthiness or replace them with \<open>''\<close>, so the three are not told apart.
\<close>

definition upper_chars :: string where
  "upper_chars = ''ABCDEFGHIJKLMNOPQRSTUVWXYZ''"

definition lower_chars :: string where
  "lower_chars = ''abcdefghijklmnopqrstuvwxyz''"

definition digit_chars :: string where
  "digit_chars = ''0123456789''"

text \<open>\<open>\w\<close>, \<open>\s\<close> and \<open>\d\<close> of a regular expression, on ASCII.\<close>

definition is_word :: "char \<Rightarrow> bool" where
  "is_word c = (c \<in> set (lower_chars @ upper_chars @ digit_chars @ ''_''))"

definition is_space :: "char \<Rightarrow> bool" where
  "is_space c = (c \<in> set [CHR '' '', CHR 0x09, CHR 0x0A, CHR 0x0B, CHR 0x0C, CHR 0x0D])"

definition is_digit :: "char \<Rightarrow> bool" where
  "is_digit c = (c \<in> set digit_chars)"

definition lower_char :: "char \<Rightarrow> char" where
  "lower_char c = (case map_of (zip upper_chars lower_chars) c of Some l \<Rightarrow> l | None \<Rightarrow> c)"

definition toLowerCase :: "string \<Rightarrow> string" where
  "toLowerCase s = map lower_char s"

text \<open>\<open>String.prototype.trim\<close>: white space is removed at both ends.\<close>

definition trim :: "string \<Rightarrow> string" where
  "trim s = rev (dropWhile is_space (rev (dropWhile is_space s)))"

text \<open>\<open>text.includes(kw)\<close>: \<open>kw\<close> occurs in \<open>text\<close> as a contiguous substring.\<close>

fun str_includes :: "string \<Rightarrow> string \<Rightarrow> bool" where
  "str_includes [] kw = (kw = [])"
| "str_includes (c # cs) kw = (prefix kw (c # cs) \<or> str_includes cs kw)"

text \<open>Truthiness of an optional string, \<open>a || b\<close> and \<open>a || ''\<close>.\<close>

fun truthy :: "string option \<Rightarrow> bool" where
  "truthy None = False"
| "truthy (Some s) = (s \<noteq> [])"

definition or_js :: "string option \<Rightarrow> string option \<Rightarrow> string option" where
  "or_js a b = (if truthy a then a else b)"

fun or_empty :: "string option \<Rightarrow> string" where
  "or_empty None = []"
| "or_empty (Some s) = s"

section \<open>Regular-expression replacement\<close>

text \<open>
  \<open>String.prototype.replace\<close> with a regular expression scans the subject from left to
  right. A \<open>matcher\<close> models one regular expression: given the character just before a
  position (\<open>None\<close> at the start of the subject; only \<open>\b\<close> and \<open>^\<close> look at it) and the
  subject from the position on, it returns the length of the match that the backtracking
  search finds there, if any.
\<close>

type_synonym matcher = "char option \<Rightarrow> string \<Rightarrow> nat option"

text \<open>
  With the \<open>g\<close> flag every match is replaced; the search resumes where the last match
  ended, and after an empty match it copies one character.
\<close>

function replace_all :: "matcher \<Rightarrow> string \<Rightarrow> char option \<Rightarrow> string \<Rightarrow> string" where
  "replace_all m rep prev [] = (case m prev [] of None \<Rightarrow> [] | Some n \<Rightarrow> rep)"
| "replace_all m rep prev (c # cs) =
     (case m prev (c # cs) of
        None \<Rightarrow> c # replace_all m rep (Some c) cs
      | Some 0 \<Rightarrow> rep @ c # replace_all m rep (Some c) cs
      | Some (Suc n) \<Rightarrow> rep @ replace_all m rep (Some (last (take (Suc n) (c # cs)))) (drop n cs))"
  by pat_completeness auto
termination
  by (relation "measure (\<lambda>(m, rep, prev, s). length s)") auto

text \<open>Without the \<open>g\<close> flag only the leftmost match is replaced.\<close>

fun replace_first :: "matcher \<Rightarrow> string \<Rightarrow> char option \<Rightarrow> string \<Rightarrow> string" where
  "replace_first m rep prev [] = (case m prev [] of None \<Rightarrow> [] | Some n \<Rightarrow> rep)"
| "replace_first m rep prev (c # cs) =
     (case m prev (c # cs) of
        None \<Rightarrow> c # replace_first m rep (Some c) cs
      | Some n \<Rightarrow> rep @ drop n (c # cs))"

text \<open>\<open>[class]+\<close>: the longest non-empty run of characters of a class.\<close>

definition m_plus :: "(char \<Rightarrow> bool) \<Rightarrow> matcher" where
  "m_plus P prev s = (case takeWhile P s of [] \<Rightarrow> None | r # rs \<Rightarrow> Some (Suc (length rs)))"

text \<open>\<open>[class]\<close>: one character of a class.\<close>

definition m_one :: "(char \<Rightarrow> bool) \<Rightarrow> matcher" where
  "m_one P prev s = (case s of [] \<Rightarrow> None | c # cs \<Rightarrow> if P c then Some 1 else None)"

text \<open>
  \<open>\b\<close> holds between two neighbours when exactly one of them is a word character; the
  two ends of the subject count as non-word characters.
\<close>

fun word_opt :: "char option \<Rightarrow> bool" where
  "word_opt None = False"
| "word_opt (Some c) = is_word c"

definition boundary :: "char option \<Rightarrow> char option \<Rightarrow> bool" where
  "boundary a b = (word_opt a \<noteq> word_opt b)"

fun head_opt :: "string \<Rightarrow> char option" where
  "head_opt [] = None"
| "head_opt (c # cs) = Some c"

text \<open>
  \<open>\b(k1|k2|...)\b\<close>: the alternatives are literal strings, listed in the order in which
  the backtracking search tries them (so \<open>sr\.?\<close> is \<open>sr.\<close> before \<open>sr\<close>, and \<open>i{1,3}\<close> is
  \<open>iii\<close>, \<open>ii\<close>, \<open>i\<close>). The first alternative that is a prefix of the rest and is followed
  by a word boundary is the match. \<open>ci\<close> is the \<open>i\<close> flag.
\<close>

definition fold_case :: "bool \<Rightarrow> string \<Rightarrow> string" where
  "fold_case ci s = (if ci then toLowerCase s else s)"

definition alt_ok :: "bool \<Rightarrow> string \<Rightarrow> string \<Rightarrow> bool" where
  "alt_ok ci s k =
     (k \<noteq> [] \<and> prefix k (fold_case ci s) \<and>
      boundary (Some (last (take (length k) s))) (head_opt (drop (length k) s)))"

definition m_bounded :: "bool \<Rightarrow> string list \<Rightarrow> matcher" where
  "m_bounded ci alts prev s =
     (if boundary prev (head_opt s)
      then map_option length (find (alt_ok ci s) alts)
      else None)"

text \<open>
  \<open>\s+(k1|k2|...)$\<close>: white space, then one of the literal alternatives, then the end of
  the subject. The alternatives start with a letter, so the run of white space is maximal,
  and the match, when there is one, reaches to the end.
\<close>

definition m_suffix :: "bool \<Rightarrow> string list \<Rightarrow> matcher" where
  "m_suffix ci alts prev s =
     (if takeWhile is_space s \<noteq> [] \<and> fold_case ci (dropWhile is_space s) \<in> set alts
      then Some (length s) else None)"

text \<open>\<open>\s*,\s*\<close>: a comma with the white space around it.\<close>

definition m_comma :: matcher where
  "m_comma prev s =
     (case dropWhile is_space s of
        [] \<Rightarrow> None
      | c # cs \<Rightarrow> if c = CHR '','' then
            Some (length (takeWhile is_space s) + 1 + length (takeWhile is_space cs))
          else None)"

fun is_space_opt :: "char option \<Rightarrow> bool" where
  "is_space_opt None = False"
| "is_space_opt (Some c) = is_space c"

text \<open>
  \<open>\s+-\s+[^-]+$\<close>: white space, a hyphen, white space, and a non-empty rest without a
  hyphen. White space is itself in \<open>[^-]\<close>, so when nothing follows the second run of white
  space the search gives one space of it back: the text after the hyphen has to start with
  white space, to hold no hyphen, and to be at least two characters long.
\<close>

definition m_clause :: matcher where
  "m_clause prev s =
     (case dropWhile is_space s of
        [] \<Rightarrow> None
      | c # cs \<Rightarrow>
          if takeWhile is_space s \<noteq> [] \<and> c = CHR ''-'' \<and> is_space_opt (head_opt cs) \<and>
             CHR ''-'' \<notin> set cs \<and> 2 \<le> length cs
          then Some (length s) else None)"

text \<open>\<open>^-|-$\<close>: a hyphen at the start, or a hyphen at the end.\<close>

definition m_edge_hyphen :: matcher where
  "m_edge_hyphen prev s =
     (if (prev = None \<and> head_opt s = Some CHR ''-'') \<or> s = ''-'' then Some 1 else None)"

text \<open>\<open>\/$\<close>: a final slash.\<close>

definition m_final_slash :: matcher where
  "m_final_slash prev s = (if s = ''/'' then Some 1 else None)"

text \<open>The replacements that several functions share.\<close>

definition collapse_spaces :: "string \<Rightarrow> string \<Rightarrow> string" where
  \<comment> \<open>\<open>.replace(/\s+/g, rep)\<close>\<close>
  "collapse_spaces rep s = replace_all (m_plus is_space) rep None s"

definition collapse_hyphens :: "string \<Rightarrow> string" where
  \<comment> \<open>\<open>.replace(/-+/g, '-')\<close>\<close>
  "collapse_hyphens s = replace_all (m_plus (\<lambda>c. c = CHR ''-'')) ''-'' None s"

definition trim_hyphens :: "string \<Rightarrow> string" where
  \<comment> \<open>\<open>.replace(/^-|-$/g, '')\<close>\<close>
  "trim_hyphens s = replace_all m_edge_hyphen [] None s"

section \<open>Job records\<close>

text \<open>
  The fields of a job object that the scripts read or write. The field \<open>id\<close> of the
  source is \<open>job_id\<close> here.
\<close>

record job =
  job_id :: "string option"
  fingerprint :: "string option"
  title :: "string option"
  job_title :: "string option"
  company :: "string option"
  company_name :: "string option"
  employer_name :: "string option"
  location :: "string option"
  locations :: "string list option"
  job_city :: "string option"
  job_state :: "string option"
  job_country :: "string option"
  url :: "string option"
  job_apply_link :: "string option"
  job_description :: "string option"
  job_source :: "string option"
  experience_level :: "string option"
  employment_type :: "string option"

definition empty_job :: job where
  "empty_job = \<lparr> job_id = None, fingerprint = None, title = None, job_title = None,
     company = None, company_name = None, employer_name = None, location = None,
     locations = None, job_city = None, job_state = None, job_country = None,
     url = None, job_apply_link = None, job_description = None, job_source = None,
     experience_level = None, employment_type = None \<rparr>"

section \<open>Job identifiers\<close>

text \<open>
  \<open>new URL(s)\<close> is the platform's URL parser. It is a parameter of the model: \<open>None\<close> when
  the constructor throws, otherwise the \<open>hostname\<close> and the \<open>pathname\<close> of the parsed URL
  (the query string and the fragment are in neither).
\<close>

type_synonym url_parser = "string \<Rightarrow> (string \<times> string) option"

definition url_id :: "string \<Rightarrow> string \<Rightarrow> string" where
  "url_id hostname pathname =
     (let normalized = hostname @ replace_first m_final_slash [] None pathname
      in trim_hyphens (collapse_hyphens
           (replace_all (m_one (\<lambda>c. \<not> is_word c)) ''-'' None (toLowerCase normalized))))"

text \<open>\<open>.replace(/[^\w-]/g, '-').replace(/-+/g, '-').replace(/^-|-$/g, '')\<close>\<close>

definition normalize :: "string \<Rightarrow> string" where
  "normalize str =
     trim_hyphens (collapse_hyphens
       (replace_all (m_one (\<lambda>c. \<not> is_word c \<and> c \<noteq> CHR ''-'')) ''-'' None str))"

text \<open>\<open>generateJobId\<close> of \<open>lib/job-processor.js\<close>.\<close>

definition generateJobId_jp :: "url_parser \<Rightarrow> job \<Rightarrow> string" where
  "generateJobId_jp parseURL j =
     (let jobUrl = job_apply_link j;
          fallback =
            (let company = collapse_spaces ''-'' (toLowerCase (or_empty (employer_name j)));
                 title = collapse_spaces ''-'' (toLowerCase (or_empty (job_title j)));
                 location = collapse_spaces ''-'' (toLowerCase (or_empty (job_city j)))
             in normalize (company @ ''-'' @ title @ ''-'' @ location))
      in if truthy jobUrl then
           (case parseURL (or_empty jobUrl) of
              Some (hostname, pathname) \<Rightarrow> url_id hostname pathname
            | None \<Rightarrow> fallback)
         else fallback)"

text \<open>\<open>generateEnhancedId\<close> and \<open>generateJobIdFromUrl\<close> of the utilities module.\<close>

definition enhanced_title :: "string \<Rightarrow> string" where
  "enhanced_title t =
     collapse_spaces ''-''
      (replace_all (m_bounded False [''&'']) ''and'' None
      (replace_all (m_bounded False [''jr.'', ''jr'']) ''junior'' None
      (replace_all (m_bounded False [''sr.'', ''sr'']) ''senior'' None
      (replace_all (m_bounded False [''v'']) ''5'' None
      (replace_all (m_bounded False [''iv'']) ''4'' None
      (replace_all (m_bounded False [''iii'']) ''3'' None
      (replace_all (m_bounded False [''ii'']) ''2'' None
      (replace_all (m_bounded False [''i'']) ''1'' None t))))))))"

definition enhanced_company :: "string \<Rightarrow> string" where
  "enhanced_company c =
     collapse_spaces ''-''
      (replace_all m_comma ''-'' None
      (replace_first (m_suffix True [''group'']) [] None
      (replace_first (m_suffix True [''systems'', ''system'']) [] None
      (replace_first (m_suffix True [''technologies'', ''technologie'']) [] None
      (replace_first (m_suffix True [''solutions'', ''solution'']) [] None
      (replace_first (m_suffix True [''inc.'', ''inc'', ''incorporated'', ''llc'', ''corp.'',
          ''corp'', ''corporation'', ''ltd.'', ''ltd'', ''limited'']) [] None c))))))"

definition first_location :: "job \<Rightarrow> string option" where
  \<comment> \<open>\<open>job.locations && Array.isArray(job.locations) && job.locations.length > 0\<close>\<close>
  "first_location j = (case locations j of Some (l # ls) \<Rightarrow> Some l | _ \<Rightarrow> None)"

definition generateEnhancedId :: "job \<Rightarrow> string" where
  "generateEnhancedId j =
     (let title = enhanced_title (trim (toLowerCase (or_empty (or_js (title j) (job_title j)))));
          company = enhanced_company (trim (toLowerCase
                      (or_empty (or_js (or_js (company_name j) (employer_name j)) (company j)))));
          city = (case first_location j of
                    Some l \<Rightarrow> trim (toLowerCase l)
                  | None \<Rightarrow> trim (toLowerCase (or_empty (or_js (job_city j) (location j)))));
          city = collapse_spaces ''-'' city
      in normalize company @ ''-'' @ normalize title @ ''-'' @ normalize city)"

definition generateJobIdFromUrl :: "url_parser \<Rightarrow> job \<Rightarrow> string" where
  "generateJobIdFromUrl parseURL j =
     (let jobUrl = or_js (url j) (job_apply_link j)
      in if truthy jobUrl then
           (case parseURL (or_empty jobUrl) of
              Some (hostname, pathname) \<Rightarrow> url_id hostname pathname
            | None \<Rightarrow> generateEnhancedId j)
         else generateEnhancedId j)"

text \<open>
  \<open>lib/jobId.js\<close>. SHA-256 is the platform's \<open>crypto\<close> module; the hex digest is a parameter.
  A \<open>null\<close> or \<open>undefined\<close> job is \<open>None\<close>.
\<close>

datatype error = JobRequired | IOError | SyntaxError | TypeError

definition normalizeCompanyName :: "string option \<Rightarrow> string" where
  "normalizeCompanyName name =
     (if \<not> truthy name then []
      else collapse_spaces '' ''
             (replace_all (m_suffix True [''inc'', ''inc.'', ''llc'', ''llc.'', ''corp'', ''corp.'',
                 ''corporation'', ''corporation.'', ''ltd'', ''ltd.'', ''limited'', ''limited.'',
                 ''gmbh'', ''gmbh.'', ''co'', ''co.'', ''company'', ''company.'']) [] None
               (trim (toLowerCase (or_empty name)))))"

definition normalizeTitle :: "string option \<Rightarrow> string" where
  "normalizeTitle t =
     (if \<not> truthy t then [] else collapse_spaces '' '' (trim (toLowerCase (or_empty t))))"

definition normalizeLocation :: "string option \<Rightarrow> string" where
  "normalizeLocation l =
     (if \<not> truthy l then [] else collapse_spaces '' '' (trim (toLowerCase (or_empty l))))"

definition generateJobId :: "(string \<Rightarrow> string) \<Rightarrow> job option \<Rightarrow> error + string" where
  "generateJobId sha256 job =
     (case job of
        None \<Rightarrow> Inl JobRequired
      | Some j \<Rightarrow>
          (let company = normalizeCompanyName (company j);
               title = normalizeTitle (title j);
               location = (if truthy (location j) then normalizeLocation (location j) else []);
               hashInput = trim (toLowerCase (company @ ''|'' @ title @ ''|'' @ location));
               hash = sha256 hashInput
           in Inr (take 8 hash)))"

text \<open>\<open>generateFingerprint\<close> of the deduplication module.\<close>

fun join :: "string \<Rightarrow> string list \<Rightarrow> string" where
  "join sep [] = []"
| "join sep [x] = x"
| "join sep (x # y # ys) = x @ sep @ join sep (y # ys)"

definition generateFingerprint :: "(string \<Rightarrow> string) \<Rightarrow> job option \<Rightarrow> error + string" where
  "generateFingerprint sha256 job =
     (case job of
        None \<Rightarrow> Inl JobRequired
      | Some j \<Rightarrow>
          (let parts = [or_empty (company j), or_empty (title j), or_empty (location j),
                        or_empty (experience_level j), or_empty (employment_type j)];
               normalized = join ''|'' (map (\<lambda>p. trim (toLowerCase p)) parts)
           in Inr (sha256 normalized)))"

section \<open>Fingerprints\<close>

definition seniority_words :: "string list" where
  \<comment> \<open>\<open>senior|sr\.?|junior|jr\.?|staff|principal|lead|associate\<close>\<close>
  "seniority_words = [''senior'', ''sr.'', ''sr'', ''junior'', ''jr.'', ''jr'', ''staff'',
     ''principal'', ''lead'', ''associate'']"

definition level_numerals :: "string list" where
  \<comment> \<open>\<open>i{1,3}|iv|v|1|2|3|4|5\<close>\<close>
  "level_numerals = [''iii'', ''ii'', ''i'', ''iv'', ''v'', ''1'', ''2'', ''3'', ''4'', ''5'']"

text \<open>\<open>s.split(',')[0]\<close>: the text before the first comma.\<close>

definition first_segment :: "string \<Rightarrow> string" where
  "first_segment s = takeWhile (\<lambda>c. c \<noteq> CHR '','') s"

definition normalizeCompanyNameStr :: "string option \<Rightarrow> string" where
  "normalizeCompanyNameStr name =
     (if \<not> truthy name then []
      else collapse_spaces '' ''
             (replace_first (m_suffix True [''inc.'', ''inc'', ''llc'', ''corp.'', ''corp'',
                 ''corporation'', ''ltd.'', ''ltd'', ''limited'', ''gmbh'', ''co'', ''company'']) [] None
               (trim (toLowerCase (or_empty name)))))"

text \<open>\<open>generateJobFingerprint\<close> of the utilities module.\<close>

definition fingerprint_title :: "string \<Rightarrow> string" where
  "fingerprint_title t =
     trim (collapse_spaces '' ''
       (replace_first m_clause [] None
       (replace_all (m_bounded False level_numerals) [] None
       (replace_all (m_bounded True seniority_words) [] None t))))"

definition generateJobFingerprint :: "job \<Rightarrow> string" where
  "generateJobFingerprint j =
     (let title = fingerprint_title (trim (toLowerCase (or_empty (or_js (title j) (job_title j)))));
          company = normalizeCompanyNameStr
                      (Some (or_empty (or_js (or_js (company_name j) (employer_name j)) (company j))));
          location = (case first_location j of
                        Some l \<Rightarrow> first_segment l
                      | None \<Rightarrow> first_segment (or_empty (or_js (job_city j) (location j))));
          location = trim (toLowerCase location)
      in company @ ''::'' @ title @ ''::'' @ location)"

text \<open>\<open>generateJobFingerprint\<close> of \<open>lib/job-processor.js\<close>.\<close>

definition generateJobFingerprint_jp :: "job \<Rightarrow> string" where
  "generateJobFingerprint_jp j =
     (let title = trim (collapse_spaces '' ''
                    (replace_all (m_bounded True seniority_words) [] None
                       (toLowerCase (or_empty (job_title j)))));
          company = trim (replace_first (m_suffix True [''inc.'', ''inc'', ''llc'', ''corp.'',
                      ''corp'', ''ltd.'', ''ltd'']) [] None (toLowerCase (or_empty (employer_name j))));
          location = trim (toLowerCase (first_segment (or_empty (job_city j))))
      in company @ ''::'' @ title @ ''::'' @ location)"

section \<open>Location filter\<close>

text \<open>\<open>isUSOnlyJob\<close> of \<open>lib/job-processor.js\<close>.\<close>

definition nonUSCountries :: "string list" where
  "nonUSCountries = [''canada'', ''uk'', ''united kingdom'', ''germany'', ''france'',
     ''netherlands'', ''india'', ''singapore'', ''japan'', ''australia'']"

definition usStates :: "string list" where
  "usStates = [''al'', ''ak'', ''az'', ''ar'', ''ca'', ''co'', ''ct'', ''de'', ''fl'', ''ga'',
     ''hi'', ''id'', ''il'', ''in'', ''ia'', ''ks'', ''ky'', ''la'', ''me'', ''md'',
     ''ma'', ''mi'', ''mn'', ''ms'', ''mo'', ''mt'', ''ne'', ''nv'', ''nh'', ''nj'',
     ''nm'', ''ny'', ''nc'', ''nd'', ''oh'', ''ok'', ''or'', ''pa'', ''ri'', ''sc'',
     ''sd'', ''tn'', ''tx'', ''ut'', ''vt'', ''va'', ''wa'', ''wv'', ''wi'', ''wy'', ''dc'']"

definition isUSOnlyJob_jp :: "job \<Rightarrow> bool" where
  "isUSOnlyJob_jp j =
     (let country = toLowerCase (or_empty (job_country j));
          state = toLowerCase (or_empty (job_state j));
          city = toLowerCase (or_empty (job_city j))
      in if country = ''us'' \<or> country = ''usa'' \<or> country = ''united states'' then True
         else if list_ex (\<lambda>c. str_includes country c) nonUSCountries then False
         else if state \<in> set usStates then True
         else if str_includes city ''remote'' \<and> country = [] then True
         else False)"

text \<open>
  \<open>isUSOnlyJob\<close> of the utilities module. Its optional second argument carries the two
  predicates \<open>config.locations.isNonUS\<close> and \<open>config.locations.isUS\<close>; \<open>None\<close> is a call
  without a configuration.
\<close>

record loc_config =
  isNonUS :: "string \<Rightarrow> bool"
  isUS :: "string \<Rightarrow> bool"

definition usIndicators :: "string list" where
  "usIndicators = [''us'', ''usa'', ''united states'', ''america'']"

definition isUSOnlyJob :: "job \<Rightarrow> loc_config option \<Rightarrow> bool" where
  "isUSOnlyJob j locConfig =
     (let state = trim (toLowerCase (or_empty (job_state j)));
          city = trim (toLowerCase (or_empty (job_city j)));
          cleanCity = trim (replace_all (m_plus (\<lambda>c. c = CHR '','' \<or> is_space c)) '' '' None city);
          cleanState = trim (replace_all (m_plus (\<lambda>c. c = CHR '','' \<or> is_space c)) '' '' None state)
      in case locConfig of
           Some cfg \<Rightarrow>
             if isNonUS cfg cleanCity \<or> isNonUS cfg cleanState then False
             else isUS cfg cleanCity \<or> isUS cfg cleanState
         | None \<Rightarrow>
             if list_ex (\<lambda>i. str_includes cleanState i) usIndicators then True
             else if str_includes cleanCity ''remote'' \<or> str_includes cleanState ''remote'' then True
             else True)"

section \<open>Age filter\<close>

text \<open>
  \<open>isJobOlderThanWeek\<close>. \<open>new Date(s)\<close> and \<open>new Date()\<close> belong to the platform: the
  parser is a parameter that returns the time value in milliseconds, \<open>None\<close> for an invalid
  date, and \<open>now\<close> is the current time value. \<open>parseInt\<close> reads the digits exactly here; the
  source's floating-point value is compared with small integers only, which rounding does
  not change.
\<close>

type_synonym date_parser = "string \<Rightarrow> int option"

definition digit_val :: "char \<Rightarrow> nat" where
  "digit_val c = (case map_of (zip digit_chars [0, 1, 2, 3, 4, 5, 6, 7, 8, 9]) c of
                    Some d \<Rightarrow> d | None \<Rightarrow> 0)"

definition parseInt :: "string \<Rightarrow> nat" where
  "parseInt ds = foldl (\<lambda>acc d. 10 * acc + digit_val d) 0 ds"

text \<open>
  \<open>String(dateString).match(/^(\d+)([hdwmo])$/i)\<close>: the two groups, when the string is a
  non-empty run of digits followed by exactly one character of the class \<open>[hdwmo]\<close>.
\<close>

definition relative_match :: "string \<Rightarrow> (string \<times> string) option" where
  "relative_match s =
     (case rev s of
        [] \<Rightarrow> None
      | u # rds \<Rightarrow>
          if rds \<noteq> [] \<and> list_all is_digit rds \<and> lower_char u \<in> set ''hdwmo''
          then Some (rev rds, [u]) else None)"

definition isJobOlderThanWeek :: "date_parser \<Rightarrow> int \<Rightarrow> string option \<Rightarrow> bool" where
  "isJobOlderThanWeek parseDate now dateString =
     (if \<not> truthy dateString then False
      else case relative_match (or_empty dateString) of
             Some (digits, u) \<Rightarrow>
               (let val = parseInt digits; unit = toLowerCase u
                in if unit = ''h'' then 336 \<le> val
                   else if unit = ''d'' then 14 \<le> val
                   else if unit = ''w'' then 2 \<le> val
                   else if unit = ''mo'' then True
                   else False)
           | None \<Rightarrow>
               (case parseDate (or_empty dateString) of
                  None \<Rightarrow> False
                | Some date \<Rightarrow> 14 \<le> (now - date) div (1000 * 60 * 60 * 24)))"

section \<open>Classifier\<close>

text \<open>
  The optional configuration: \<open>config.categories.experienceLevels\<close> and
  \<open>config.categories.keywords\<close> (the field \<open>category_keywords\<close> here), each an object
  from a label to a list of keywords, given by its entries in enumeration order.
\<close>

record categories_config =
  experienceLevels :: "(string \<times> string list) list option"
  category_keywords :: "(string \<times> string list) list option"

definition level_matches :: "(string \<times> string list) list \<Rightarrow> string \<Rightarrow> string \<Rightarrow> bool" where
  \<comment> \<open>\<open>levels[label] && levels[label].some(keyword => text.includes(keyword))\<close>\<close>
  "level_matches levels label text =
     (case map_of levels label of
        None \<Rightarrow> False
      | Some kws \<Rightarrow> list_ex (\<lambda>keyword. str_includes text keyword) kws)"

definition default_level :: "string \<Rightarrow> string" where
  "default_level text =
     (if str_includes text ''senior'' \<or> str_includes text ''sr.'' \<or> str_includes text ''lead'' \<or>
         str_includes text ''principal'' \<or> str_includes text ''staff'' \<or>
         str_includes text ''architect''
      then ''Senior''
      else if str_includes text ''entry'' \<or> str_includes text ''junior'' \<or>
         str_includes text ''jr.'' \<or> str_includes text ''new grad'' \<or>
         str_includes text ''graduate'' \<or> str_includes text ''intern'' \<or>
         str_includes text ''associate'' \<or> str_includes text ''level 1'' \<or>
         str_includes text ''l1'' \<or> str_includes text ''campus'' \<or>
         str_includes text ''student'' \<or> str_includes text ''early career''
      then ''Entry-Level''
      else ''Entry-Level'')"

definition getExperienceLevel :: "string \<Rightarrow> string \<Rightarrow> categories_config option \<Rightarrow> string" where
  "getExperienceLevel ttl description config =
     (let text = toLowerCase (ttl @ '' '' @ description)
      in case (case config of None \<Rightarrow> None | Some cfg \<Rightarrow> experienceLevels cfg) of
           Some levels \<Rightarrow>
             if level_matches levels ''Senior'' text then ''Senior''
             else if level_matches levels ''Entry-Level'' text then ''Entry-Level''
             else if level_matches levels ''Mid-Level'' text then ''Mid-Level''
             else default_level text
         | None \<Rightarrow> default_level text)"

definition default_category :: "string \<Rightarrow> string" where
  "default_category text =
     (if str_includes text ''ios'' \<or> str_includes text ''android'' \<or> str_includes text ''mobile''
      then ''Mobile Development''
      else if str_includes text ''frontend'' \<or> str_includes text ''front-end'' \<or>
         str_includes text ''react'' \<or> str_includes text ''vue''
      then ''Frontend Development''
      else if str_includes text ''backend'' \<or> str_includes text ''back-end'' \<or>
         str_includes text ''api'' \<or> str_includes text ''server''
      then ''Backend Development''
      else if str_includes text ''machine learning'' \<or> str_includes text ''ml '' \<or>
         str_includes text ''ai '' \<or> str_includes text ''deep learning''
      then ''Machine Learning & AI''
      else if str_includes text ''data scientist'' \<or> str_includes text ''data analyst'' \<or>
         str_includes text ''analytics''
      then ''Data Science & Analytics''
      else if str_includes text ''devops'' \<or> str_includes text ''infrastructure'' \<or>
         str_includes text ''cloud''
      then ''DevOps & Infrastructure''
      else if str_includes text ''security'' \<or> str_includes text ''cybersecurity''
      then ''Security Engineering''
      else if str_includes text ''product manager'' \<or> str_includes text ''pm ''
      then ''Product Management''
      else if str_includes text ''design'' \<or> str_includes text ''ux'' \<or> str_includes text ''ui''
      then ''Design''
      else if str_includes text ''full stack'' \<or> str_includes text ''fullstack''
      then ''Full Stack Development''
      else ''Software Engineering'')"

text \<open>The loop over \<open>Object.entries(config.categories.keywords)\<close>: the first entry that matches.\<close>

fun first_category :: "(string \<times> string list) list \<Rightarrow> string \<Rightarrow> string option" where
  "first_category [] text = None"
| "first_category ((category, kws) # rest) text =
     (if list_ex (\<lambda>keyword. str_includes text keyword) kws then Some category
      else first_category rest text)"

definition getJobCategory :: "string \<Rightarrow> string \<Rightarrow> categories_config option \<Rightarrow> string" where
  "getJobCategory ttl description config =
     (let text = toLowerCase (ttl @ '' '' @ description)
      in case (case config of None \<Rightarrow> None | Some cfg \<Rightarrow> category_keywords cfg) of
           Some table \<Rightarrow>
             (case first_category table text of
                Some category \<Rightarrow> category
              | None \<Rightarrow> default_category text)
         | None \<Rightarrow> default_category text)"

text \<open>The keywords of the built-in tables, for stating that none of them matches.\<close>

definition default_level_keywords :: "string list" where
  "default_level_keywords = [''senior'', ''sr.'', ''lead'', ''principal'', ''staff'', ''architect'',
     ''entry'', ''junior'', ''jr.'', ''new grad'', ''graduate'', ''intern'', ''associate'',
     ''level 1'', ''l1'', ''campus'', ''student'', ''early career'']"

definition default_category_keywords :: "string list" where
  "default_category_keywords = [''ios'', ''android'', ''mobile'', ''frontend'', ''front-end'',
     ''react'', ''vue'', ''backend'', ''back-end'', ''api'', ''server'', ''machine learning'',
     ''ml '', ''ai '', ''deep learning'', ''data scientist'', ''data analyst'', ''analytics'',
     ''devops'', ''infrastructure'', ''cloud'', ''security'', ''cybersecurity'',
     ''product manager'', ''pm '', ''design'', ''ux'', ''ui'', ''full stack'', ''fullstack'']"

definition config_level_keywords :: "categories_config option \<Rightarrow> string list" where
  "config_level_keywords config =
     (case (case config of None \<Rightarrow> None | Some cfg \<Rightarrow> experienceLevels cfg) of
        None \<Rightarrow> []
      | Some levels \<Rightarrow> concat (map snd levels))"

definition config_category_keywords :: "categories_config option \<Rightarrow> string list" where
  "config_category_keywords config =
     (case (case config of None \<Rightarrow> None | Some cfg \<Rightarrow> category_keywords cfg) of
        None \<Rightarrow> []
      | Some table \<Rightarrow> concat (map snd table))"

section \<open>Seniority filter of the job processor\<close>

definition seniorKeywords :: "string list" where
  "seniorKeywords = [''senior'', ''sr.'', ''staff'', ''principal'', ''lead'',
     ''architect'', ''manager'', ''director'', ''vp'', ''head of'']"

definition entryLevelKeywords :: "string list" where
  "entryLevelKeywords = [''entry level'', ''junior'', ''jr.'', ''new grad'', ''recent graduate'',
     ''associate'', ''intern'', ''campus'', ''student'', ''0-2 years'', ''early career'']"

definition senior_text :: "job \<Rightarrow> string" where
  "senior_text j = toLowerCase (or_empty (job_title j) @ '' '' @ or_empty (job_description j))"

definition isSeniorJob :: "job \<Rightarrow> bool" where
  "isSeniorJob j =
     (if job_source j = Some ''jsearch'' then False
      else let text = senior_text j;
               hasSeniorKeyword = list_ex (\<lambda>kw. str_includes text kw) seniorKeywords;
               hasEntryLevelKeyword = list_ex (\<lambda>kw. str_includes text kw) entryLevelKeywords
           in hasSeniorKeyword \<and> \<not> hasEntryLevelKeyword)"

section \<open>Merging and deduplication\<close>

text \<open>
  \<open>mergeJobs\<close> of \<open>lib/job-processor.js\<close>. A JavaScript \<open>Map\<close> keeps its entries in the
  order in which their keys were first set; setting a key that is there replaces the value
  in place.
\<close>

fun map_set :: "('k \<times> 'v) list \<Rightarrow> 'k \<Rightarrow> 'v \<Rightarrow> ('k \<times> 'v) list" where
  "map_set [] k v = [(k, v)]"
| "map_set ((k', v') # m) k v = (if k' = k then (k, v) # m else (k', v') # map_set m k v)"

definition set_if_id :: "(string \<times> job) list \<Rightarrow> job \<Rightarrow> (string \<times> job) list" where
  \<comment> \<open>\<open>if (job.id) { jobMap.set(job.id, job); }\<close>\<close>
  "set_if_id jobMap j = (if truthy (job_id j) then map_set jobMap (or_empty (job_id j)) j else jobMap)"

definition mergeJobs :: "job list \<Rightarrow> job list \<Rightarrow> job list" where
  "mergeJobs persistedJobs freshJobs =
     map snd (foldl set_if_id (foldl set_if_id [] persistedJobs) freshJobs)"

text \<open>
  \<open>filterDuplicates\<close> of the deduplication module. The loop writes \<open>id\<close> and
  \<open>fingerprint\<close> into every job object it visits, so the model returns the jobs of the
  input array as the loop leaves them together with the array \<open>uniqueJobs\<close>.
\<close>

definition assign_identity :: "(string \<Rightarrow> string) \<Rightarrow> job \<Rightarrow> error + job" where
  "assign_identity sha256 j =
     (case (if truthy (job_id j) then Inr (job_id j)
            else case generateJobId sha256 (Some j) of Inl e \<Rightarrow> Inl e | Inr i \<Rightarrow> Inr (Some i)) of
        Inl e \<Rightarrow> Inl e
      | Inr i \<Rightarrow>
          (let j1 = j\<lparr>job_id := i\<rparr>
           in case (if truthy (fingerprint j1) then Inr (fingerprint j1)
                    else case generateFingerprint sha256 (Some j1) of
                           Inl e \<Rightarrow> Inl e | Inr f \<Rightarrow> Inr (Some f)) of
                Inl e \<Rightarrow> Inl e
              | Inr f \<Rightarrow> Inr (j1\<lparr>fingerprint := f\<rparr>)))"

fun filterDuplicates_loop ::
  "(string \<Rightarrow> string) \<Rightarrow> job list \<Rightarrow> string option set \<Rightarrow> string option set \<Rightarrow>
   job list \<Rightarrow> job list \<Rightarrow> error + (job list \<times> job list)" where
  "filterDuplicates_loop sha256 [] seen seenFingerprints uniqueJobs visited =
     Inr (visited, uniqueJobs)"
| "filterDuplicates_loop sha256 (j # js) seen seenFingerprints uniqueJobs visited =
     (case assign_identity sha256 j of
        Inl e \<Rightarrow> Inl e
      | Inr j' \<Rightarrow>
          if job_id j' \<in> seen \<or> fingerprint j' \<in> seenFingerprints
          then filterDuplicates_loop sha256 js seen seenFingerprints uniqueJobs (visited @ [j'])
          else filterDuplicates_loop sha256 js (insert (job_id j') seen)
                 (insert (fingerprint j') seenFingerprints) (uniqueJobs @ [j']) (visited @ [j']))"

definition filterDuplicates :: "(string \<Rightarrow> string) \<Rightarrow> job list \<Rightarrow> error + (job list \<times> job list)" where
  "filterDuplicates sha256 jobs = filterDuplicates_loop sha256 jobs {} {} [] []"

section \<open>Store\<close>

text \<open>
  The values \<open>JSON.parse\<close> returns; numbers are kept abstract (\<open>0\<close> stands for both zeros).
  The parser is a parameter of the model, \<open>None\<close> when it throws a \<open>SyntaxError\<close>.
\<close>

datatype 'n json = JNull | JBool bool | JNum 'n | JStr string
  | JArr "'n json list" | JObj "(string \<times> 'n json) list"

fun json_truthy :: "('n::zero) json \<Rightarrow> bool" where
  "json_truthy JNull = False"
| "json_truthy (JBool b) = b"
| "json_truthy (JNum n) = (n \<noteq> 0)"
| "json_truthy (JStr s) = (s \<noteq> [])"
| "json_truthy (JArr xs) = True"
| "json_truthy (JObj kvs) = True"

text \<open>
  A file is absent, or it exists and cannot be read (\<open>readFileSync\<close> throws), or it has
  contents. The file system maps a path to the state of the file there.
\<close>

datatype file_state = Absent | Unreadable | Contents string

type_synonym filesystem = "string \<Rightarrow> file_state"

definition existsSync :: "filesystem \<Rightarrow> string \<Rightarrow> bool" where
  "existsSync fs p = (fs p \<noteq> Absent)"

definition readFileSync :: "filesystem \<Rightarrow> string \<Rightarrow> error + string" where
  "readFileSync fs p = (case fs p of Contents s \<Rightarrow> Inr s | _ \<Rightarrow> Inl IOError)"

definition JSON_parse :: "(string \<Rightarrow> 'n json option) \<Rightarrow> string \<Rightarrow> error + 'n json" where
  "JSON_parse parse s = (case parse s of None \<Rightarrow> Inl SyntaxError | Some v \<Rightarrow> Inr v)"

definition path_join :: "string \<Rightarrow> string \<Rightarrow> string" where
  \<comment> \<open>\<open>path.join\<close> of a normalised directory and a plain name\<close>
  "path_join dir name = (if dir \<noteq> [] \<and> last dir = CHR ''/'' then dir @ name else dir @ ''/'' @ name)"

definition data_file :: "string \<Rightarrow> string \<Rightarrow> string" where
  "data_file cwd name = path_join (path_join (path_join cwd ''.github'') ''data'') name"

text \<open>
  \<open>loadCurrentJobsStore\<close>: the body of the \<open>try\<close> block, then the function with its
  \<open>catch\<close>, which logs the error and returns \<open>[]\<close>.
\<close>

definition loadCurrentJobsStore_try ::
  "(string \<Rightarrow> ('n::zero) json option) \<Rightarrow> filesystem \<Rightarrow> string \<Rightarrow> error + 'n json" where
  "loadCurrentJobsStore_try parse fs cwd =
     (let currentPath = data_file cwd ''current_jobs.json''
      in if \<not> existsSync fs currentPath then Inr (JArr [])
         else case readFileSync fs currentPath of
                Inl e \<Rightarrow> Inl e
              | Inr text \<Rightarrow>
                  (case JSON_parse parse text of
                     Inl e \<Rightarrow> Inl e
                   | Inr data \<Rightarrow> Inr (if json_truthy data then data else JArr [])))"

definition loadCurrentJobsStore ::
  "(string \<Rightarrow> ('n::zero) json option) \<Rightarrow> filesystem \<Rightarrow> string \<Rightarrow> error + 'n json" where
  "loadCurrentJobsStore parse fs cwd =
     (case loadCurrentJobsStore_try parse fs cwd of
        Inl e \<Rightarrow> Inr (JArr [])
      | Inr v \<Rightarrow> Inr v)"

text \<open>
  \<open>loadSeenJobsStore\<close>. A \<open>Set\<close> is the list of its elements in insertion order; a
  primitive value is added once, an array or object parsed from the file is a fresh
  reference each time.
\<close>

fun is_primitive :: "'n json \<Rightarrow> bool" where
  "is_primitive (JArr xs) = False"
| "is_primitive (JObj kvs) = False"
| "is_primitive v = True"

definition set_add :: "'n json list \<Rightarrow> 'n json \<Rightarrow> 'n json list" where
  "set_add s v = (if is_primitive v \<and> v \<in> set s then s else s @ [v])"

fun decimal :: "nat \<Rightarrow> string" where
  "decimal n = (if n < 10 then [digit_chars ! n] else decimal (n div 10) @ [digit_chars ! (n mod 10)])"

declare decimal.simps [simp del]

text \<open>\<open>Object.keys\<close>: it throws on \<open>null\<close>, and a string or an array has its indices as keys.\<close>

fun object_keys :: "'n json \<Rightarrow> error + string list" where
  "object_keys JNull = Inl TypeError"
| "object_keys (JObj kvs) = Inr (map fst kvs)"
| "object_keys (JStr s) = Inr (map decimal [0..<length s])"
| "object_keys (JArr xs) = Inr (map decimal [0..<length xs])"
| "object_keys v = Inr []"

definition loadSeenJobsStore_try ::
  "(string \<Rightarrow> 'n json option) \<Rightarrow> filesystem \<Rightarrow> string \<Rightarrow> error + 'n json list" where
  "loadSeenJobsStore_try parse fs cwd =
     (let seenPath = data_file cwd ''seen_jobs.json''
      in if \<not> existsSync fs seenPath then Inr []
         else case readFileSync fs seenPath of
                Inl e \<Rightarrow> Inl e
              | Inr text \<Rightarrow>
                  (case JSON_parse parse text of
                     Inl e \<Rightarrow> Inl e
                   | Inr data \<Rightarrow>
                       (case data of
                          JArr ids \<Rightarrow> Inr (foldl set_add [] ids)
                        | _ \<Rightarrow>
                           (case object_keys data of
                              Inl e \<Rightarrow> Inl e
                            | Inr ks \<Rightarrow> Inr (foldl set_add [] (map JStr ks))))))"

definition loadSeenJobsStore ::
  "(string \<Rightarrow> 'n json option) \<Rightarrow> filesystem \<Rightarrow> string \<Rightarrow> error + 'n json list" where
  "loadSeenJobsStore parse fs cwd =
     (case loadSeenJobsStore_try parse fs cwd of
        Inl e \<Rightarrow> Inr []
      | Inr s \<Rightarrow> Inr s)"

text \<open>A working directory with a legacy seen-jobs file and a truncated store, for the examples.\<close>

definition demo_fs :: filesystem where
  "demo_fs p = (if p = ''/repo/.github/data/seen_jobs.json'' then Contents ''{\"a-1\":true,\"b-2\":true}''
                else if p = ''/repo/.github/data/current_jobs.json'' then Contents ''[{''
                else Absent)"

definition demo_parse :: "string \<Rightarrow> nat json option" where
  "demo_parse t = (if t = ''{\"a-1\":true,\"b-2\":true}''
                   then Some (JObj [(''a-1'', JBool True), (''b-2'', JBool True)]) else None)"

text \<open>A URL parser that knows two spellings of one posting, for the examples.\<close>

definition demo_url :: url_parser where
  "demo_url u =
     (if u = ''https://acme.com/jobs/42?ref=feed'' then Some (''acme.com'', ''/jobs/42'')
      else if u = ''https://acme.com/jobs/42/'' then Some (''acme.com'', ''/jobs/42/'')
      else None)"

text \<open>
  The invariant of the two \<open>forEach\<close> loops of \<open>mergeJobs\<close>: the keys of the map are
  distinct, and every entry is filed under the non-empty id of its record.
\<close>

definition map_ok :: "(string \<times> job) list \<Rightarrow> bool" where
  "map_ok m \<longleftrightarrow> distinct (map fst m) \<and> (\<forall>(k, v) \<in> set m. job_id v = Some k \<and> k \<noteq> [])"

text \<open>A persisted store and a fresh batch, for the examples.\<close>

definition demo_persisted :: "job list" where
  "demo_persisted =
     [empty_job\<lparr>job_id := Some ''acme-com-jobs-42'', job_title := Some ''Engineer (old)''\<rparr>,
      empty_job\<lparr>job_title := Some ''No id''\<rparr>,
      empty_job\<lparr>job_id := Some ''acme-com-jobs-7'', job_title := Some ''Analyst''\<rparr>]"

definition demo_fresh :: "job list" where
  "demo_fresh =
     [empty_job\<lparr>job_id := Some ''acme-com-jobs-42'', job_title := Some ''Engineer (new)''\<rparr>,
      empty_job\<lparr>job_id := Some [], job_title := Some ''Empty id''\<rparr>]"

text \<open>Three jobs that already carry an id and a fingerprint, for the examples.\<close>

definition demo_a :: job where
  "demo_a = empty_job\<lparr>job_id := Some ''id-1'', fingerprint := Some ''fp-A'', title := Some ''a''\<rparr>"

definition demo_b :: job where
  "demo_b = empty_job\<lparr>job_id := Some ''id-2'', fingerprint := Some ''fp-A'', title := Some ''b''\<rparr>"

definition demo_c :: job where
  "demo_c = empty_job\<lparr>job_id := Some ''id-2'', fingerprint := Some ''fp-B'', title := Some ''c''\<rparr>"

section \<open>Properties\<close>

lemma includes_iff: "str_includes s kw \<longleftrightarrow> (\<exists>p q. s = p @ kw @ q)"
proof (induction s)
  case Nil
  then show ?case by auto
next
  case (Cons c cs)
  show ?case
  proof
    assume "str_includes (c # cs) kw"
    then consider "prefix kw (c # cs)" | "str_includes cs kw" by auto
    then show "\<exists>p q. c # cs = p @ kw @ q"
    proof cases
      case 1
      then obtain q where "c # cs = kw @ q" by (auto simp: prefix_def)
      then have "c # cs = [] @ kw @ q" by simp
      then show ?thesis by blast
    next
      case 2
      then obtain p q where "cs = p @ kw @ q" using Cons.IH by blast
      then have "c # cs = (c # p) @ kw @ q" by simp
      then show ?thesis by blast
    qed
  next
    assume "\<exists>p q. c # cs = p @ kw @ q"
    then obtain p q where pq: "c # cs = p @ kw @ q" by blast
    show "str_includes (c # cs) kw"
    proof (cases p)
      case Nil
      then have "prefix kw (c # cs)" using pq by (simp add: prefix_def)
      then show ?thesis by simp
    next
      case (Cons a p')
      then have "cs = p' @ kw @ q" using pq by simp
      then have "str_includes cs kw" using Cons.IH by blast
      then show ?thesis by simp
    qed
  qed
qed

text \<open>
  C10. A job whose \<open>job_source\<close> is \<open>jsearch\<close> is never senior, whatever its title and
  description say; any other job is senior exactly when the lower-cased text
  \<open>title + ' ' + description\<close> contains one of the senior keywords and none of the
  entry-level keywords.
\<close>

theorem isSeniorJob_spec:
  "(job_source j = Some ''jsearch'' \<longrightarrow> isSeniorJob j = False) \<and>
   (job_source j \<noteq> Some ''jsearch'' \<longrightarrow>
      isSeniorJob j =
        ((\<exists>kw \<in> set seniorKeywords. str_includes (senior_text j) kw) \<and>
         \<not> (\<exists>kw \<in> set entryLevelKeywords. str_includes (senior_text j) kw)))"
  by (simp add: isSeniorJob_def Let_def list_ex_iff)

theorem isSeniorJob_spec_witness:
  "job_source (empty_job\<lparr>job_title := Some ''Senior Engineer'', job_source := Some ''jsearch''\<rparr>)
     = Some ''jsearch'' \<and>
   isSeniorJob (empty_job\<lparr>job_title := Some ''Senior Engineer'', job_source := Some ''jsearch''\<rparr>)
     = False \<and>
   job_source (empty_job\<lparr>job_title := Some ''Senior Engineer''\<rparr>) \<noteq> Some ''jsearch'' \<and>
   isSeniorJob (empty_job\<lparr>job_title := Some ''Senior Engineer''\<rparr>) = True \<and>
   isSeniorJob (empty_job\<lparr>job_title := Some ''Senior Engineer'',
                  job_description := Some ''Open to new grad applicants''\<rparr>) = False"
  using isSeniorJob_spec [of "empty_job\<lparr>job_title := Some ''Senior Engineer'', job_source := Some ''jsearch''\<rparr>"]
    isSeniorJob_spec [of "empty_job\<lparr>job_title := Some ''Senior Engineer''\<rparr>"]
    isSeniorJob_spec [of "empty_job\<lparr>job_title := Some ''Senior Engineer'',
                  job_description := Some ''Open to new grad applicants''\<rparr>"]
  by (simp add: empty_job_def senior_text_def toLowerCase_def lower_char_def upper_chars_def
        lower_chars_def seniorKeywords_def entryLevelKeywords_def)

subsection \<open>Location filter\<close>

text \<open>
  The location filter of the utilities module, called without a configuration, answers
  \<open>true\<close> for every job, and so for a job whose location fields are all missing or empty.
\<close>

lemma isUSOnlyJob_no_config: "isUSOnlyJob j None = True"
  by (simp add: isUSOnlyJob_def Let_def)

text \<open>
  The location filter of the job processor answers \<open>false\<close> whenever the three location
  fields are missing or empty.
\<close>

lemma or_empty_falsy: "\<not> truthy a \<Longrightarrow> or_empty a = []"
  by (cases a) auto

lemma isUSOnlyJob_jp_no_location:
  assumes "\<not> truthy (job_country j)" and "\<not> truthy (job_state j)" and "\<not> truthy (job_city j)"
  shows "isUSOnlyJob_jp j = False"
  using assms
  by (simp add: isUSOnlyJob_jp_def or_empty_falsy toLowerCase_def nonUSCountries_def usStates_def)

text \<open>
  C1. A job whose country, state and city are all missing should pass the US-location
  filter (the default-to-include policy). The filter of the job processor, which is the
  one the pipeline \<open>processJobs\<close> applies, rejects such a job: it ends in \<open>return false\<close>.
\<close>

theorem isUSOnlyJob_jp_empty: "isUSOnlyJob_jp empty_job = False"
  by (simp add: isUSOnlyJob_jp_def empty_job_def toLowerCase_def nonUSCountries_def usStates_def)

subsection \<open>Age filter\<close>

text \<open>
  For a run of digits followed by \<open>h\<close>, \<open>d\<close> or \<open>w\<close> the age filter compares the number
  with 336, 14 and 2.
\<close>

lemma relative_match_unit:
  assumes "ds \<noteq> []" "list_all is_digit ds" "lower_char u \<in> set ''hdwmo''"
  shows "relative_match (ds @ [u]) = Some (ds, [u])"
  using assms by (simp add: relative_match_def)

lemma isJobOlderThanWeek_hours_days_weeks:
  assumes "ds \<noteq> []" "list_all is_digit ds"
  shows "isJobOlderThanWeek parseDate now (Some (ds @ ''h'')) = (336 \<le> parseInt ds)"
    and "isJobOlderThanWeek parseDate now (Some (ds @ ''d'')) = (14 \<le> parseInt ds)"
    and "isJobOlderThanWeek parseDate now (Some (ds @ ''w'')) = (2 \<le> parseInt ds)"
  using assms
  by (simp_all add: isJobOlderThanWeek_def relative_match_unit lower_char_def upper_chars_def
        lower_chars_def toLowerCase_def)

lemma isJobOlderThanWeek_examples:
  "isJobOlderThanWeek parseDate now (Some ''15d'') = True"
  "isJobOlderThanWeek parseDate now (Some ''13d'') = False"
  "isJobOlderThanWeek parseDate now (Some ''336h'') = True"
  "isJobOlderThanWeek parseDate now (Some ''200h'') = False"
  by (simp_all add: isJobOlderThanWeek_def relative_match_def is_digit_def digit_chars_def
        lower_char_def upper_chars_def lower_chars_def toLowerCase_def parseInt_def digit_val_def)

text \<open>
  C2. A relative date with the unit \<open>mo\<close> should be stale whatever its number. The class
  \<open>[hdwmo]\<close> of the pattern matches one character, so \<open>3mo\<close> is not recognised as a
  relative date: the branch \<open>case 'mo'\<close> is never reached, the string goes to the date
  parser, and with an invalid date the answer is \<open>false\<close>. The one-letter form \<open>1m\<close> is
  recognised and falls to the \<open>default\<close> branch, \<open>false\<close>.
\<close>

theorem isJobOlderThanWeek_month_unit:
  "relative_match ''3mo'' = None \<and>
   isJobOlderThanWeek parseDate now (Some ''3mo'') =
     (case parseDate ''3mo'' of None \<Rightarrow> False
      | Some date \<Rightarrow> 14 \<le> (now - date) div (1000 * 60 * 60 * 24)) \<and>
   isJobOlderThanWeek (\<lambda>s. None) now (Some ''3mo'') = False \<and>
   isJobOlderThanWeek parseDate now (Some ''1m'') = False"
  by (simp add: isJobOlderThanWeek_def relative_match_def is_digit_def digit_chars_def
        lower_char_def upper_chars_def lower_chars_def toLowerCase_def)

subsection \<open>Identity functions\<close>

text \<open>
  C7. \<open>generateJobId\<close> of \<open>lib/jobId.js\<close> and \<open>generateFingerprint\<close> raise an error
  exactly when the job argument is \<open>null\<close> or \<open>undefined\<close>, and the error is the explicit
  \<open>Job object is required\<close>. For every job object they return a string; a missing field
  gives the same result as the field set to the empty string, and a job without any field
  hashes the empty segments \<open>||\<close> and \<open>||||\<close>.
\<close>

theorem identity_functions_errors:
  "((\<exists>e. generateJobId sha256 job = Inl e) \<longleftrightarrow> job = None) \<and>
   ((\<exists>e. generateFingerprint sha256 job = Inl e) \<longleftrightarrow> job = None) \<and>
   generateJobId sha256 None = Inl JobRequired \<and>
   generateFingerprint sha256 None = Inl JobRequired \<and>
   (\<exists>s. generateJobId sha256 (Some j) = Inr s) \<and>
   (\<exists>s. generateFingerprint sha256 (Some j) = Inr s) \<and>
   generateJobId sha256 (Some (j\<lparr>company := None\<rparr>)) = generateJobId sha256 (Some (j\<lparr>company := Some []\<rparr>)) \<and>
   generateJobId sha256 (Some (j\<lparr>title := None\<rparr>)) = generateJobId sha256 (Some (j\<lparr>title := Some []\<rparr>)) \<and>
   generateJobId sha256 (Some (j\<lparr>location := None\<rparr>)) = generateJobId sha256 (Some (j\<lparr>location := Some []\<rparr>)) \<and>
   generateFingerprint sha256 (Some (j\<lparr>company := None\<rparr>)) = generateFingerprint sha256 (Some (j\<lparr>company := Some []\<rparr>)) \<and>
   generateFingerprint sha256 (Some (j\<lparr>title := None\<rparr>)) = generateFingerprint sha256 (Some (j\<lparr>title := Some []\<rparr>)) \<and>
   generateFingerprint sha256 (Some (j\<lparr>location := None\<rparr>)) = generateFingerprint sha256 (Some (j\<lparr>location := Some []\<rparr>)) \<and>
   generateFingerprint sha256 (Some (j\<lparr>experience_level := None\<rparr>)) = generateFingerprint sha256 (Some (j\<lparr>experience_level := Some []\<rparr>)) \<and>
   generateFingerprint sha256 (Some (j\<lparr>employment_type := None\<rparr>)) = generateFingerprint sha256 (Some (j\<lparr>employment_type := Some []\<rparr>)) \<and>
   generateJobId sha256 (Some empty_job) = Inr (take 8 (sha256 ''||'')) \<and>
   generateFingerprint sha256 (Some empty_job) = Inr (sha256 ''||||'')"
proof -
  have a: "(\<exists>e. generateJobId sha256 job = Inl e) \<longleftrightarrow> job = None"
    by (cases job) (simp_all add: generateJobId_def Let_def)
  have b: "(\<exists>e. generateFingerprint sha256 job = Inl e) \<longleftrightarrow> job = None"
    by (cases job) (simp_all add: generateFingerprint_def Let_def)
  have c: "generateJobId sha256 None = Inl JobRequired" "generateFingerprint sha256 None = Inl JobRequired"
    by (simp_all add: generateJobId_def generateFingerprint_def)
  have d: "\<exists>s. generateJobId sha256 (Some j) = Inr s" "\<exists>s. generateFingerprint sha256 (Some j) = Inr s"
    by (simp_all add: generateJobId_def generateFingerprint_def Let_def)
  have e: "generateJobId sha256 (Some (j\<lparr>company := None\<rparr>)) = generateJobId sha256 (Some (j\<lparr>company := Some []\<rparr>))"
    "generateJobId sha256 (Some (j\<lparr>title := None\<rparr>)) = generateJobId sha256 (Some (j\<lparr>title := Some []\<rparr>))"
    "generateJobId sha256 (Some (j\<lparr>location := None\<rparr>)) = generateJobId sha256 (Some (j\<lparr>location := Some []\<rparr>))"
    by (simp_all add: generateJobId_def Let_def normalizeCompanyName_def normalizeTitle_def)
  have f: "generateFingerprint sha256 (Some (j\<lparr>company := None\<rparr>)) = generateFingerprint sha256 (Some (j\<lparr>company := Some []\<rparr>))"
   "generateFingerprint sha256 (Some (j\<lparr>title := None\<rparr>)) = generateFingerprint sha256 (Some (j\<lparr>title := Some []\<rparr>))"
   "generateFingerprint sha256 (Some (j\<lparr>location := None\<rparr>)) = generateFingerprint sha256 (Some (j\<lparr>location := Some []\<rparr>))"
   "generateFingerprint sha256 (Some (j\<lparr>experience_level := None\<rparr>)) = generateFingerprint sha256 (Some (j\<lparr>experience_level := Some []\<rparr>))"
   "generateFingerprint sha256 (Some (j\<lparr>employment_type := None\<rparr>)) = generateFingerprint sha256 (Some (j\<lparr>employment_type := Some []\<rparr>))"
    by (simp_all add: generateFingerprint_def Let_def)
  have g: "generateJobId sha256 (Some empty_job) = Inr (take 8 (sha256 ''||''))"
    by (simp add: generateJobId_def empty_job_def normalizeCompanyName_def normalizeTitle_def
        toLowerCase_def lower_char_def upper_chars_def lower_chars_def trim_def is_space_def)
  have h: "generateFingerprint sha256 (Some empty_job) = Inr (sha256 ''||||'')"
    by (simp add: generateFingerprint_def empty_job_def toLowerCase_def trim_def)
  show ?thesis using a b c d e f g h by blast
qed

theorem identity_functions_errors_witness:
  "generateJobId (\<lambda>s. ''0123456789abcdef'') None = Inl JobRequired \<and>
   generateFingerprint (\<lambda>s. ''0123456789abcdef'') None = Inl JobRequired \<and>
   generateJobId (\<lambda>s. ''0123456789abcdef'') (Some empty_job) = Inr ''01234567'' \<and>
   generateFingerprint (\<lambda>s. ''0123456789abcdef'') (Some empty_job) = Inr ''0123456789abcdef''"
  using identity_functions_errors [of "\<lambda>s. ''0123456789abcdef''" None empty_job]
  by simp

subsection \<open>Classifier\<close>

lemma first_category_None:
  "\<forall>kw \<in> set (concat (map snd table)). \<not> str_includes t kw \<Longrightarrow> first_category table t = None"
  by (induction table t rule: first_category.induct) (auto simp: list_ex_iff)

lemma level_matches_False:
  assumes "\<forall>kw \<in> set (concat (map snd levels)). \<not> str_includes text kw"
  shows "level_matches levels label text = False"
proof (cases "map_of levels label")
  case None
  then show ?thesis by (simp add: level_matches_def)
next
  case (Some kws)
  then have "(label, kws) \<in> set levels" by (rule map_of_SomeD)
  then have "set kws \<subseteq> set (concat (map snd levels))" by force
  then show ?thesis using assms Some by (auto simp: level_matches_def list_ex_iff)
qed

lemma default_category_fallback:
  "\<forall>kw \<in> set default_category_keywords. \<not> str_includes text kw \<Longrightarrow>
   default_category text = ''Software Engineering''"
  by (simp add: default_category_def default_category_keywords_def)

lemma default_level_fallback: "default_level text \<noteq> ''Senior'' \<Longrightarrow> default_level text = ''Entry-Level''"
  by (simp add: default_level_def split: if_splits)

text \<open>
  C8. When no keyword of the category tables (the built-in one and, if a configuration is
  given, the configured one) occurs in the lower-cased text \<open>title + ' ' + description\<close>,
  \<open>getJobCategory\<close> returns \<open>Software Engineering\<close>; when no keyword of the experience-level
  tables occurs in it, \<open>getExperienceLevel\<close> returns \<open>Entry-Level\<close>.
\<close>

theorem classifier_defaults:
  "((\<forall>kw \<in> set (default_category_keywords @ config_category_keywords config).
        \<not> str_includes (toLowerCase (ttl @ '' '' @ description)) kw) \<longrightarrow>
      getJobCategory ttl description config = ''Software Engineering'') \<and>
   ((\<forall>kw \<in> set (default_level_keywords @ config_level_keywords config).
        \<not> str_includes (toLowerCase (ttl @ '' '' @ description)) kw) \<longrightarrow>
      getExperienceLevel ttl description config = ''Entry-Level'')"
proof (intro conjI impI)
  let ?text = "toLowerCase (ttl @ '' '' @ description)"
  assume h: "\<forall>kw \<in> set (default_category_keywords @ config_category_keywords config).
        \<not> str_includes ?text kw"
  then have d: "default_category ?text = ''Software Engineering''"
    by (intro default_category_fallback) simp
  show "getJobCategory ttl description config = ''Software Engineering''"
  proof (cases "case config of None \<Rightarrow> None | Some cfg \<Rightarrow> category_keywords cfg")
    case None
    then show ?thesis using d by (simp add: getJobCategory_def)
  next
    case (Some table)
    then have "\<forall>kw \<in> set (concat (map snd table)). \<not> str_includes ?text kw"
      using h by (simp add: config_category_keywords_def)
    then have "first_category table ?text = None" by (rule first_category_None)
    then show ?thesis using d Some by (simp add: getJobCategory_def)
  qed
next
  let ?text = "toLowerCase (ttl @ '' '' @ description)"
  assume h: "\<forall>kw \<in> set (default_level_keywords @ config_level_keywords config).
        \<not> str_includes ?text kw"
  then have d: "default_level ?text = ''Entry-Level''"
    by (simp add: default_level_def default_level_keywords_def)
  show "getExperienceLevel ttl description config = ''Entry-Level''"
  proof (cases "case config of None \<Rightarrow> None | Some cfg \<Rightarrow> experienceLevels cfg")
    case None
    then show ?thesis using d by (simp add: getExperienceLevel_def)
  next
    case (Some levels)
    then have "\<forall>kw \<in> set (concat (map snd levels)). \<not> str_includes ?text kw"
      using h by (simp add: config_level_keywords_def)
    then have "\<And>label. level_matches levels label ?text = False" by (rule level_matches_False)
    then show ?thesis using d Some by (simp add: getExperienceLevel_def)
  qed
qed

theorem classifier_defaults_witness:
  "getJobCategory ''Software Engineer'' ''''
        (Some \<lparr>experienceLevels = Some [(''Senior'', [''expert'', ''veteran'']),
                  (''Entry-Level'', [''beginner'']), (''Mid-Level'', [''intermediate''])],
               category_keywords = Some [(''Data'', [''sql'', ''etl''])]\<rparr>) = ''Software Engineering'' \<and>
   getExperienceLevel ''Software Engineer'' ''''
        (Some \<lparr>experienceLevels = Some [(''Senior'', [''expert'', ''veteran'']),
                  (''Entry-Level'', [''beginner'']), (''Mid-Level'', [''intermediate''])],
               category_keywords = Some [(''Data'', [''sql'', ''etl''])]\<rparr>) = ''Entry-Level''"
proof -
  let ?cfg = "Some \<lparr>experienceLevels = Some [(''Senior'', [''expert'', ''veteran'']),
                  (''Entry-Level'', [''beginner'']), (''Mid-Level'', [''intermediate''])],
               category_keywords = Some [(''Data'', [''sql'', ''etl''])]\<rparr>"
  have t: "toLowerCase (''Software Engineer'' @ '' '' @ '''') = ''software engineer ''"
    by (simp add: toLowerCase_def lower_char_def upper_chars_def lower_chars_def)
  have c: "\<forall>kw \<in> set (default_category_keywords @ config_category_keywords ?cfg).
        \<not> str_includes (toLowerCase (''Software Engineer'' @ '' '' @ '''')) kw"
    unfolding t by (simp add: default_category_keywords_def config_category_keywords_def)
  have l: "\<forall>kw \<in> set (default_level_keywords @ config_level_keywords ?cfg).
        \<not> str_includes (toLowerCase (''Software Engineer'' @ '' '' @ '''')) kw"
    unfolding t by (simp add: default_level_keywords_def config_level_keywords_def)
  show ?thesis
    using c l classifier_defaults [of ?cfg "''Software Engineer''" "''''"] by blast
qed

subsection \<open>Store\<close>

lemma set_foldl_set_add: "set (foldl set_add s vs) = set s \<union> set vs"
  by (induction vs arbitrary: s) (auto simp: set_add_def)

text \<open>
  C9. \<open>loadCurrentJobsStore\<close> and \<open>loadSeenJobsStore\<close> never throw: for every working
  directory, file system and parser they return a value. When the file is absent, cannot
  be read or does not parse, the value is the empty array, respectively the empty set. A
  seen-jobs file that holds an object yields the set of the object's keys.
\<close>

theorem store_load_total:
  "(\<exists>v. loadCurrentJobsStore parse fs cwd = Inr v) \<and>
   (\<exists>s. loadSeenJobsStore parse fs cwd = Inr s) \<and>
   (fs (data_file cwd ''current_jobs.json'') = Absent \<or>
    fs (data_file cwd ''current_jobs.json'') = Unreadable \<or>
    (\<exists>t. fs (data_file cwd ''current_jobs.json'') = Contents t \<and> parse t = None)
      \<longrightarrow> loadCurrentJobsStore parse fs cwd = Inr (JArr [])) \<and>
   (fs (data_file cwd ''seen_jobs.json'') = Absent \<or>
    fs (data_file cwd ''seen_jobs.json'') = Unreadable \<or>
    (\<exists>t. fs (data_file cwd ''seen_jobs.json'') = Contents t \<and> parse t = None)
      \<longrightarrow> loadSeenJobsStore parse fs cwd = Inr []) \<and>
   (\<forall>t kvs. fs (data_file cwd ''seen_jobs.json'') = Contents t \<and> parse t = Some (JObj kvs)
      \<longrightarrow> (\<exists>s. loadSeenJobsStore parse fs cwd = Inr s \<and> set s = JStr ` fst ` set kvs))"
proof (intro conjI)
  show "\<exists>v. loadCurrentJobsStore parse fs cwd = Inr v"
    by (simp add: loadCurrentJobsStore_def split: sum.split)
  show "\<exists>s. loadSeenJobsStore parse fs cwd = Inr s"
    by (simp add: loadSeenJobsStore_def split: sum.split)
  show "fs (data_file cwd ''current_jobs.json'') = Absent \<or>
    fs (data_file cwd ''current_jobs.json'') = Unreadable \<or>
    (\<exists>t. fs (data_file cwd ''current_jobs.json'') = Contents t \<and> parse t = None)
      \<longrightarrow> loadCurrentJobsStore parse fs cwd = Inr (JArr [])"
    by (auto simp: loadCurrentJobsStore_def loadCurrentJobsStore_try_def existsSync_def
          readFileSync_def JSON_parse_def)
  show "fs (data_file cwd ''seen_jobs.json'') = Absent \<or>
    fs (data_file cwd ''seen_jobs.json'') = Unreadable \<or>
    (\<exists>t. fs (data_file cwd ''seen_jobs.json'') = Contents t \<and> parse t = None)
      \<longrightarrow> loadSeenJobsStore parse fs cwd = Inr []"
    by (auto simp: loadSeenJobsStore_def loadSeenJobsStore_try_def existsSync_def
          readFileSync_def JSON_parse_def)
  show "\<forall>t kvs. fs (data_file cwd ''seen_jobs.json'') = Contents t \<and> parse t = Some (JObj kvs)
      \<longrightarrow> (\<exists>s. loadSeenJobsStore parse fs cwd = Inr s \<and> set s = JStr ` fst ` set kvs)"
    by (auto simp: loadSeenJobsStore_def loadSeenJobsStore_try_def existsSync_def
          readFileSync_def JSON_parse_def set_foldl_set_add)
qed

theorem store_load_total_witness:
  "loadCurrentJobsStore demo_parse (\<lambda>p. Absent) ''/repo'' = Inr (JArr []) \<and>
   loadSeenJobsStore demo_parse (\<lambda>p. Absent) ''/repo'' = Inr [] \<and>
   loadCurrentJobsStore demo_parse (\<lambda>p. Unreadable) ''/repo'' = Inr (JArr []) \<and>
   loadCurrentJobsStore demo_parse demo_fs ''/repo'' = Inr (JArr []) \<and>
   (\<exists>s. loadSeenJobsStore demo_parse demo_fs ''/repo'' = Inr s \<and> set s = {JStr ''a-1'', JStr ''b-2''})"
proof -
  have p: "data_file ''/repo'' ''seen_jobs.json'' = ''/repo/.github/data/seen_jobs.json''"
    "data_file ''/repo'' ''current_jobs.json'' = ''/repo/.github/data/current_jobs.json''"
    by (simp_all add: data_file_def path_join_def)
  have a: "loadCurrentJobsStore demo_parse (\<lambda>p. Absent) ''/repo'' = Inr (JArr []) \<and>
           loadSeenJobsStore demo_parse (\<lambda>p. Absent) ''/repo'' = Inr []"
    using store_load_total [of demo_parse "\<lambda>p. Absent" "''/repo''"] by simp
  have b: "loadCurrentJobsStore demo_parse (\<lambda>p. Unreadable) ''/repo'' = Inr (JArr [])"
    using store_load_total [of demo_parse "\<lambda>p. Unreadable" "''/repo''"] by simp
  have c: "loadCurrentJobsStore demo_parse demo_fs ''/repo'' = Inr (JArr [])"
    using store_load_total [of demo_parse demo_fs "''/repo''"]
    by (simp add: p demo_fs_def demo_parse_def)
  have d: "\<exists>s. loadSeenJobsStore demo_parse demo_fs ''/repo'' = Inr s \<and> set s = {JStr ''a-1'', JStr ''b-2''}"
    using store_load_total [of demo_parse demo_fs "''/repo''"]
    by (simp add: p demo_fs_def demo_parse_def)
  show ?thesis using a b c d by blast
qed

subsection \<open>Identifiers from URLs\<close>

text \<open>The three replacements behind \<open>url_id\<close>, as plain recursion.\<close>

lemma replace_one_hyphen:
  "replace_all (m_one P) ''-'' prev s = map (\<lambda>c. if P c then CHR ''-'' else c) s"
  by (induction s arbitrary: prev) (simp_all add: m_one_def)

lemma replace_all_prev:
  assumes "\<And>q r t. m q t = m r t"
  shows "replace_all m rep p s = replace_all m rep p' s"
proof (induction s arbitrary: p p' rule: length_induct)
  case (1 s)
  show ?case
  proof (cases s)
    case Nil
    then show ?thesis using assms [of p "[]" p'] by simp
  next
    case (Cons c cs)
    have eq: "m p (c # cs) = m p' (c # cs)" by (rule assms)
    have ih: "\<And>t q q'. length t \<le> length cs \<Longrightarrow> replace_all m rep q t = replace_all m rep q' t"
      using 1 Cons by simp
    show ?thesis
    proof (cases "m p (c # cs)")
      case None
      then show ?thesis using eq Cons ih [of cs "Some c" "Some c"] by simp
    next
      case (Some n)
      show ?thesis
      proof (cases n)
        case 0
        then show ?thesis using Some eq Cons by simp
      next
        case (Suc k)
        then show ?thesis using Some eq Cons by simp
      qed
    qed
  qed
qed

lemma m_plus_Cons:
  "m_plus P prev (c # cs) = (if P c then Some (Suc (length (takeWhile P cs))) else None)"
  by (simp add: m_plus_def)

lemma replace_plus_Nil [simp]: "replace_all (m_plus P) rep prev [] = []"
  by (simp add: m_plus_def)

lemma replace_plus_Cons:
  "replace_all (m_plus P) rep None (c # cs) =
     (if P c then rep @ replace_all (m_plus P) rep None (dropWhile P cs)
      else c # replace_all (m_plus P) rep None cs)"
proof -
  have p: "\<And>q t. replace_all (m_plus P) rep q t = replace_all (m_plus P) rep None t"
    by (rule replace_all_prev) (simp add: m_plus_def)
  show ?thesis
    by (simp add: m_plus_Cons dropWhile_eq_drop p [of "Some _"])
qed

lemma collapse_hyphens_Nil [simp]: "collapse_hyphens [] = []"
  by (simp add: collapse_hyphens_def m_plus_def)

lemma collapse_hyphens_Cons:
  "collapse_hyphens (c # cs) =
     (if c = CHR ''-'' then CHR ''-'' # collapse_hyphens (dropWhile (\<lambda>c. c = CHR ''-'') cs)
      else c # collapse_hyphens cs)"
  using replace_plus_Cons [of "\<lambda>c. c = CHR ''-''" "''-''" c cs]
  by (simp add: collapse_hyphens_def del: replace_all.simps)


lemma collapse_hyphens_append_hyphen:
  "collapse_hyphens (y @ ''-'') =
     (if y \<noteq> [] \<and> last y = CHR ''-'' then collapse_hyphens y else collapse_hyphens y @ ''-'')"
proof (induction y rule: length_induct)
  case (1 y)
  let ?H = "\<lambda>c. c = CHR ''-''"
  show ?case
  proof (cases y)
    case Nil
    then show ?thesis by (simp add: collapse_hyphens_Cons)
  next
    case (Cons c cs)
    show ?thesis
    proof (cases "c = CHR ''-''")
      case False
      have "collapse_hyphens (cs @ ''-'') =
        (if cs \<noteq> [] \<and> last cs = CHR ''-'' then collapse_hyphens cs else collapse_hyphens cs @ ''-'')"
        using 1 Cons by simp
      then show ?thesis using False Cons by (simp add: collapse_hyphens_Cons)
    next
      case True
      show ?thesis
      proof (cases "\<forall>x \<in> set cs. x = CHR ''-''")
        case all: True
        then have d: "dropWhile ?H (cs @ ''-'') = []" "dropWhile ?H cs = []" by simp_all
        have l: "last (c # cs) = CHR ''-''" using all True by (cases cs) auto
        have "collapse_hyphens ((c # cs) @ ''-'') = ''-''"
          using True by (simp add: collapse_hyphens_Cons d del: dropWhile_append dropWhile_eq_Nil_conv)
        moreover have "collapse_hyphens (c # cs) = ''-''"
          using True by (simp add: collapse_hyphens_Cons d del: dropWhile_eq_Nil_conv)
        ultimately show ?thesis using l Cons by simp
      next
        case notall: False
        let ?w = "dropWhile ?H cs"
        have w: "?w \<noteq> []" using notall by simp
        from notall obtain x where "x \<in> set cs" "\<not> ?H x" by blast
        then have dw: "dropWhile ?H (cs @ ''-'') = ?w @ ''-''"
          by (rule dropWhile_append1)
        have "length ?w < length y" using Cons by (simp add: le_imp_less_Suc length_dropWhile_le)
        then have ih: "collapse_hyphens (?w @ ''-'') =
          (if ?w \<noteq> [] \<and> last ?w = CHR ''-'' then collapse_hyphens ?w else collapse_hyphens ?w @ ''-'')"
          using 1 by blast
        have "cs \<noteq> []" using notall by auto
        have "last ?w = last cs"
          by (metis w takeWhile_dropWhile_id last_appendR)
        then have l: "last (c # cs) = last ?w" using \<open>cs \<noteq> []\<close> by simp
        show ?thesis using True Cons ih w dw l
          by (simp add: collapse_hyphens_Cons del: dropWhile_append)
      qed
    qed
  qed
qed

lemma collapse_hyphens_empty: "collapse_hyphens y = [] \<longleftrightarrow> y = []"
  by (cases y) (simp_all add: collapse_hyphens_Cons)

lemma collapse_hyphens_last: "y \<noteq> [] \<Longrightarrow> last (collapse_hyphens y) = last y"
proof (induction y rule: length_induct)
  case (1 y)
  let ?H = "\<lambda>c. c = CHR ''-''"
  from 1(2) obtain c cs where y: "y = c # cs" by (cases y) auto
  show ?case
  proof (cases "c = CHR ''-''")
    case False
    show ?thesis
    proof (cases cs)
      case Nil
      then show ?thesis using y False by (simp add: collapse_hyphens_Cons)
    next
      case (Cons d ds)
      then have "last (collapse_hyphens cs) = last cs" using 1 y by simp
      then show ?thesis using y False Cons
        by (simp add: collapse_hyphens_Cons collapse_hyphens_empty)
    qed
  next
    case True
    show ?thesis
    proof (cases "dropWhile ?H cs = []")
      case e: True
      then have "\<forall>x \<in> set cs. x = CHR ''-''" by (simp add: dropWhile_eq_Nil_conv)
      then have l: "last (c # cs) = CHR ''-''" using True by (cases cs rule: rev_cases) auto
      have "collapse_hyphens (c # cs) = ''-''"
        using True by (simp add: collapse_hyphens_Cons e del: dropWhile_eq_Nil_conv)
      then show ?thesis using y l by simp
    next
      case ne: False
      let ?w = "dropWhile ?H cs"
      have "length ?w < length y" using y by (simp add: le_imp_less_Suc length_dropWhile_le)
      then have ih: "last (collapse_hyphens ?w) = last ?w" using 1 ne by blast
      have "cs \<noteq> []" using ne by auto
      have "last ?w = last cs" by (metis ne takeWhile_dropWhile_id last_appendR)
      then show ?thesis using y True ih ne \<open>cs \<noteq> []\<close>
        by (auto simp: collapse_hyphens_Cons collapse_hyphens_empty)
    qed
  qed
qed

lemma edge_hyphen_inner:
  "replace_all m_edge_hyphen [] (Some a) w = (if w \<noteq> [] \<and> last w = CHR ''-'' then butlast w else w)"
  by (induction w arbitrary: a) (auto simp: m_edge_hyphen_def)

lemma trim_hyphens_eq:
  "trim_hyphens z =
     (case z of [] \<Rightarrow> []
      | c # cs \<Rightarrow> if c = CHR ''-'' then (if cs \<noteq> [] \<and> last cs = CHR ''-'' then butlast cs else cs)
                  else (if last (c # cs) = CHR ''-'' then butlast (c # cs) else c # cs))"
  by (cases z) (auto simp: trim_hyphens_def m_edge_hyphen_def edge_hyphen_inner)

lemma sanitize_append_hyphen:
  "trim_hyphens (collapse_hyphens (y @ ''-'')) = trim_hyphens (collapse_hyphens y)"
proof (cases "y \<noteq> [] \<and> last y = CHR ''-''")
  case True
  then show ?thesis by (simp add: collapse_hyphens_append_hyphen)
next
  case False
  let ?z = "collapse_hyphens y"
  have c: "collapse_hyphens (y @ ''-'') = ?z @ ''-''"
    using False by (simp add: collapse_hyphens_append_hyphen)
  show ?thesis
  proof (cases ?z)
    case Nil
    then show ?thesis unfolding c by (simp add: trim_hyphens_eq)
  next
    case (Cons d ds)
    then have "y \<noteq> []" using collapse_hyphens_empty [of y] by auto
    then have l: "last ?z \<noteq> CHR ''-''" using False by (simp add: collapse_hyphens_last)
    show ?thesis unfolding c using Cons l
      by (cases ds rule: rev_cases) (auto simp: trim_hyphens_eq butlast_append)
  qed
qed

lemma final_slash:
  "replace_first m_final_slash [] prev p = (if p \<noteq> [] \<and> last p = CHR ''/'' then butlast p else p)"
  by (induction p arbitrary: prev) (auto simp: m_final_slash_def)

lemma url_id_trailing_slash: "url_id host (p @ ''/'') = url_id host p"
proof (cases "p \<noteq> [] \<and> last p = CHR ''/''")
  case False
  then show ?thesis by (auto simp: url_id_def final_slash)
next
  case True
  then obtain q where q: "p = q @ ''/''" by (metis append_butlast_last_id)
  have w: "\<not> is_word CHR ''/''"
    by (simp add: is_word_def lower_chars_def upper_chars_def digit_chars_def)
  have l: "lower_char CHR ''/'' = CHR ''/''"
    by (simp add: lower_char_def upper_chars_def lower_chars_def)
  let ?f = "\<lambda>c. if \<not> is_word c then CHR ''-'' else c"
  let ?y = "map ?f (toLowerCase (host @ q))"
  have a: "url_id host (p @ ''/'') = trim_hyphens (collapse_hyphens (?y @ ''-''))"
    unfolding q by (simp add: url_id_def final_slash toLowerCase_def replace_one_hyphen w l butlast_append)
  have b: "url_id host p = trim_hyphens (collapse_hyphens ?y)"
    unfolding q by (simp add: url_id_def final_slash toLowerCase_def replace_one_hyphen)
  show ?thesis unfolding a b by (rule sanitize_append_hyphen)
qed


text \<open>
  C6. Two jobs whose apply URLs parse to the same host and to paths that are equal or
  differ by one trailing slash get the same identifier, from \<open>generateJobId\<close> of the job
  processor as from \<open>generateJobIdFromUrl\<close> of the utilities module. The query string is
  not part of what the parser returns as \<open>hostname\<close> and \<open>pathname\<close>, so it cannot
  matter.
\<close>

theorem job_id_url_invariance:
  assumes "parseURL u1 = Some (host, p1)" and "parseURL u2 = Some (host, p2)"
    and "u1 \<noteq> []" and "u2 \<noteq> []"
    and "p2 = p1 \<or> p2 = p1 @ ''/'' \<or> p1 = p2 @ ''/''"
  shows "(job_apply_link j1 = Some u1 \<and> job_apply_link j2 = Some u2 \<longrightarrow>
            generateJobId_jp parseURL j1 = generateJobId_jp parseURL j2) \<and>
         (or_js (url j1) (job_apply_link j1) = Some u1 \<and>
          or_js (url j2) (job_apply_link j2) = Some u2 \<longrightarrow>
            generateJobIdFromUrl parseURL j1 = generateJobIdFromUrl parseURL j2)"
proof -
  have e: "url_id host p1 = url_id host p2"
    using assms(5) by (auto simp: url_id_trailing_slash)
  have a: "generateJobId_jp parseURL j1 = generateJobId_jp parseURL j2"
    if "job_apply_link j1 = Some u1" "job_apply_link j2 = Some u2"
    using that assms(1-4) e by (simp add: generateJobId_jp_def)
  have b: "generateJobIdFromUrl parseURL j1 = generateJobIdFromUrl parseURL j2"
    if "or_js (url j1) (job_apply_link j1) = Some u1" "or_js (url j2) (job_apply_link j2) = Some u2"
    using that assms(1-4) e by (simp add: generateJobIdFromUrl_def)
  show ?thesis using a b by blast
qed

theorem job_id_url_invariance_witness:
  "generateJobId_jp demo_url
     (empty_job\<lparr>url := Some ''https://acme.com/jobs/42?ref=feed'',
                 job_apply_link := Some ''https://acme.com/jobs/42?ref=feed''\<rparr>) =
   generateJobId_jp demo_url
     (empty_job\<lparr>url := Some ''https://acme.com/jobs/42/'',
                 job_apply_link := Some ''https://acme.com/jobs/42/''\<rparr>) \<and>
   generateJobIdFromUrl demo_url
     (empty_job\<lparr>url := Some ''https://acme.com/jobs/42?ref=feed'',
                 job_apply_link := Some ''https://acme.com/jobs/42?ref=feed''\<rparr>) =
   generateJobIdFromUrl demo_url
     (empty_job\<lparr>url := Some ''https://acme.com/jobs/42/'',
                 job_apply_link := Some ''https://acme.com/jobs/42/''\<rparr>)"
  using job_id_url_invariance [of demo_url "''https://acme.com/jobs/42?ref=feed''" "''acme.com''"
      "''/jobs/42''" "''https://acme.com/jobs/42/''" "''/jobs/42/''"
      "empty_job\<lparr>url := Some ''https://acme.com/jobs/42?ref=feed'',
                 job_apply_link := Some ''https://acme.com/jobs/42?ref=feed''\<rparr>"
      "empty_job\<lparr>url := Some ''https://acme.com/jobs/42/'',
                 job_apply_link := Some ''https://acme.com/jobs/42/''\<rparr>"]
  by (simp add: demo_url_def empty_job_def or_js_def)

lemma url_id_example: "url_id ''acme.com'' ''/jobs/42/'' = ''acme-com-jobs-42''"
  by (simp add: url_id_def toLowerCase_def lower_char_def upper_chars_def lower_chars_def
        is_word_def digit_chars_def m_one_def m_plus_def m_edge_hyphen_def m_final_slash_def
        collapse_hyphens_def trim_hyphens_def)

subsection \<open>Merging\<close>

lemma map_of_map_set: "map_of (map_set m k v) = (map_of m)(k \<mapsto> v)"
  by (induction m k v rule: map_set.induct) auto

lemma keys_map_set: "fst ` set (map_set m k v) = insert k (fst ` set m)"
  by (induction m k v rule: map_set.induct) auto

lemma set_map_set: "set (map_set m k v) \<subseteq> insert (k, v) (set m)"
  by (induction m k v rule: map_set.induct) auto

lemma distinct_map_set: "distinct (map fst m) \<Longrightarrow> distinct (map fst (map_set m k v))"
proof (induction m k v rule: map_set.induct)
  case (1 k v)
  then show ?case by simp
next
  case (2 k' v' m k v)
  then show ?case using keys_map_set [of m k v] by (auto simp: image_iff)
qed

lemma find_in_set: "find P xs = Some x \<Longrightarrow> x \<in> set xs"
  by (induction xs) (auto split: if_splits)

lemma find_app:
  "find P (xs @ ys) = (case find P xs of None \<Rightarrow> find P ys | Some x \<Rightarrow> Some x)"
  by (induction xs) auto

lemma map_ok_set_if_id: "map_ok m \<Longrightarrow> map_ok (set_if_id m j)"
proof (cases "truthy (job_id j)")
  case False
  assume "map_ok m"
  then show ?thesis using False by (simp add: set_if_id_def)
next
  case True
  assume ok: "map_ok m"
  from True obtain k where k: "job_id j = Some k" "k \<noteq> []" by (cases "job_id j") auto
  have "set (map_set m k j) \<subseteq> insert (k, j) (set m)" by (rule set_map_set)
  then have "\<forall>(a, v) \<in> set (map_set m k j). job_id v = Some a \<and> a \<noteq> []"
    using ok k by (auto simp: map_ok_def)
  then show ?thesis using ok k True by (simp add: map_ok_def set_if_id_def distinct_map_set)
qed

lemma map_ok_foldl: "map_ok m \<Longrightarrow> map_ok (foldl set_if_id m xs)"
  by (induction xs arbitrary: m) (simp_all add: map_ok_set_if_id)

lemma map_of_set_if_id:
  "map_of (set_if_id m j) k =
     (if k \<noteq> [] \<and> job_id j = Some k then Some j else map_of m k)"
  by (cases "job_id j") (auto simp: set_if_id_def map_of_map_set)

lemma map_of_foldl:
  "map_of (foldl set_if_id m xs) k =
     (case find (\<lambda>j. k \<noteq> [] \<and> job_id j = Some k) (rev xs) of
        Some j \<Rightarrow> Some j
      | None \<Rightarrow> map_of m k)"
proof (induction xs arbitrary: m)
  case Nil
  then show ?case by simp
next
  case (Cons x xs)
  show ?case
    by (simp add: Cons.IH find_app map_of_set_if_id split: option.split)
qed


text \<open>
  C3. \<open>mergeJobs\<close> returns one record per id: the ids of the result are pairwise distinct,
  every id that a record of the two lists carries is the id of a record of the result, and
  the record returned for an id is the last one with that id in the order persisted, then
  fresh (last write wins). So a fresh record that has an id is represented by a fresh record
  with that id, never by a persisted one. A record lacking an id (the field is missing or
  empty, so that the test \<open>if (job.id)\<close> fails) is not in the result.
\<close>

theorem mergeJobs_spec:
  "distinct (map job_id (mergeJobs persisted fresh)) \<and>
   (\<forall>r \<in> set (mergeJobs persisted fresh). truthy (job_id r)) \<and>
   (\<forall>j \<in> set (persisted @ fresh). \<not> truthy (job_id j) \<longrightarrow> j \<notin> set (mergeJobs persisted fresh)) \<and>
   (\<forall>j \<in> set (persisted @ fresh). truthy (job_id j) \<longrightarrow>
      (\<exists>r \<in> set (mergeJobs persisted fresh). job_id r = job_id j)) \<and>
   (\<forall>r \<in> set (mergeJobs persisted fresh).
      find (\<lambda>j. job_id j = job_id r) (rev (persisted @ fresh)) = Some r) \<and>
   (\<forall>j \<in> set fresh. truthy (job_id j) \<longrightarrow>
      (\<exists>r \<in> set (mergeJobs persisted fresh). job_id r = job_id j \<and> r \<in> set fresh))"
proof -
  let ?xs = "persisted @ fresh"
  let ?m = "foldl set_if_id [] ?xs"
  have r: "mergeJobs persisted fresh = map snd ?m" by (simp add: mergeJobs_def)
  have ok: "map_ok ?m" by (rule map_ok_foldl) (simp add: map_ok_def)
  then have d: "distinct (map fst ?m)" and
    key: "\<And>k v. (k, v) \<in> set ?m \<Longrightarrow> job_id v = Some k \<and> k \<noteq> []"
    by (auto simp: map_ok_def)
  have look: "\<And>k. map_of ?m k = find (\<lambda>j. k \<noteq> [] \<and> job_id j = Some k) (rev ?xs)"
    by (subst map_of_foldl) (simp split: option.split)
  have ids: "map job_id (map snd ?m) = map Some (map fst ?m)"
    using key by (induction ?m) auto
  have "\<And>ys :: string list. distinct ys \<Longrightarrow> distinct (map Some ys)"
    by (simp add: distinct_map)
  then have c1: "distinct (map job_id (mergeJobs persisted fresh))"
    unfolding r ids using d by blast
  have c2: "\<forall>r \<in> set (mergeJobs persisted fresh). truthy (job_id r)"
    unfolding r using key by fastforce
  have c3: "\<forall>j \<in> set ?xs. \<not> truthy (job_id j) \<longrightarrow> j \<notin> set (mergeJobs persisted fresh)"
    using c2 by blast
  have c5: "\<forall>r \<in> set (mergeJobs persisted fresh). find (\<lambda>j. job_id j = job_id r) (rev ?xs) = Some r"
  proof
    fix x assume "x \<in> set (mergeJobs persisted fresh)"
    then obtain k where kx: "(k, x) \<in> set ?m" unfolding r by auto
    then have i: "job_id x = Some k" "k \<noteq> []" using key by auto
    have "map_of ?m k = Some x" using d kx by simp
    then have "find (\<lambda>j. k \<noteq> [] \<and> job_id j = Some k) (rev ?xs) = Some x" using look by simp
    then show "find (\<lambda>j. job_id j = job_id x) (rev ?xs) = Some x" using i by simp
  qed
  have c4: "\<forall>j \<in> set ?xs. truthy (job_id j) \<longrightarrow> (\<exists>r \<in> set (mergeJobs persisted fresh). job_id r = job_id j)"
  proof (intro ballI impI)
    fix j assume j: "j \<in> set ?xs" "truthy (job_id j)"
    then obtain k where k: "job_id j = Some k" "k \<noteq> []" by (cases "job_id j") auto
    have "find (\<lambda>j. k \<noteq> [] \<and> job_id j = Some k) (rev ?xs) \<noteq> None"
      using j k by (auto simp: find_None_iff)
    then obtain x where "map_of ?m k = Some x" using look by auto
    then have "(k, x) \<in> set ?m" by (rule map_of_SomeD)
    then have "x \<in> set (mergeJobs persisted fresh)" "job_id x = Some k"
      unfolding r using key by force+
    then show "\<exists>r \<in> set (mergeJobs persisted fresh). job_id r = job_id j" using k by auto
  qed
  have c6: "\<forall>j \<in> set fresh. truthy (job_id j) \<longrightarrow>
      (\<exists>r \<in> set (mergeJobs persisted fresh). job_id r = job_id j \<and> r \<in> set fresh)"
  proof (intro ballI impI)
    fix j assume j: "j \<in> set fresh" "truthy (job_id j)"
    then obtain x where x: "x \<in> set (mergeJobs persisted fresh)" "job_id x = job_id j"
      using c4 by auto
    from x(1) c5 have "find (\<lambda>y. job_id y = job_id x) (rev (persisted @ fresh)) = Some x"
      by blast
    then have f: "find (\<lambda>y. job_id y = job_id x) (rev fresh @ rev persisted) = Some x"
      by simp
    have "find (\<lambda>y. job_id y = job_id x) (rev fresh) \<noteq> None"
      using j x by (auto simp: find_None_iff)
    then have "find (\<lambda>y. job_id y = job_id x) (rev fresh) = Some x"
      using f by (auto simp: find_app)
    then have "x \<in> set fresh" by (auto dest: find_in_set)
    then show "\<exists>r \<in> set (mergeJobs persisted fresh). job_id r = job_id j \<and> r \<in> set fresh"
      using x by auto
  qed
  show ?thesis using c1 c2 c3 c4 c5 c6 by blast
qed

theorem mergeJobs_spec_witness:
  "map job_title (mergeJobs demo_persisted demo_fresh) = [Some ''Engineer (new)'', Some ''Analyst''] \<and>
   distinct (map job_id (mergeJobs demo_persisted demo_fresh)) \<and>
   (\<exists>r \<in> set (mergeJobs demo_persisted demo_fresh).
      job_id r = Some ''acme-com-jobs-42'' \<and> r \<in> set demo_fresh) \<and>
   empty_job\<lparr>job_title := Some ''No id''\<rparr> \<notin> set (mergeJobs demo_persisted demo_fresh)"
proof -
  have e: "mergeJobs demo_persisted demo_fresh =
     [empty_job\<lparr>job_id := Some ''acme-com-jobs-42'', job_title := Some ''Engineer (new)''\<rparr>,
      empty_job\<lparr>job_id := Some ''acme-com-jobs-7'', job_title := Some ''Analyst''\<rparr>]"
    by (simp add: mergeJobs_def set_if_id_def demo_persisted_def demo_fresh_def empty_job_def)
  have t: "map job_title (mergeJobs demo_persisted demo_fresh) = [Some ''Engineer (new)'', Some ''Analyst'']"
    unfolding e by simp
  have m: "empty_job\<lparr>job_id := Some ''acme-com-jobs-42'', job_title := Some ''Engineer (new)''\<rparr>
             \<in> set (demo_persisted @ demo_fresh)"
    "empty_job\<lparr>job_title := Some ''No id''\<rparr> \<in> set (demo_persisted @ demo_fresh)"
    by (simp_all add: demo_persisted_def demo_fresh_def)
  have f: "empty_job\<lparr>job_id := Some ''acme-com-jobs-42'', job_title := Some ''Engineer (new)''\<rparr>
             \<in> set demo_fresh"
    by (simp add: demo_fresh_def)
  have i: "truthy (job_id (empty_job\<lparr>job_id := Some ''acme-com-jobs-42'', job_title := Some ''Engineer (new)''\<rparr>))"
    "\<not> truthy (job_id (empty_job\<lparr>job_title := Some ''No id''\<rparr>))"
    by (simp_all add: empty_job_def)
  show ?thesis
    using mergeJobs_spec [of demo_persisted demo_fresh] t m f i by fastforce
qed

subsection \<open>Deduplication\<close>

text \<open>The two assignments at the head of the loop body never throw, and what they write.\<close>

lemma assign_identity_eq:
  "\<exists>i f. generateJobId sha256 (Some j) = Inr i \<and> generateFingerprint sha256 (Some j) = Inr f \<and>
     assign_identity sha256 j =
       Inr (j\<lparr>job_id := (if truthy (job_id j) then job_id j else Some i),
              fingerprint := (if truthy (fingerprint j) then fingerprint j else Some f)\<rparr>)"
  by (simp add: assign_identity_def generateJobId_def generateFingerprint_def Let_def)

lemma assign_identity_total: "\<exists>j'. assign_identity sha256 j = Inr j'"
  using assign_identity_eq [of sha256 j] by blast

text \<open>
  One more job at the end of the input: the loop's sets \<open>seen\<close> and \<open>seenFingerprints\<close>
  hold the ids and fingerprints of the jobs in \<open>uniqueJobs\<close>, here as an assumption on the
  state the loop starts in.
\<close>

lemma filterDuplicates_loop_snoc:
  assumes "seen = job_id ` set uniq" and "seenF = fingerprint ` set uniq"
    and "assign_identity sha256 j = Inr j'"
  shows "\<exists>v u. filterDuplicates_loop sha256 js seen seenF uniq vis = Inr (v, u) \<and>
     filterDuplicates_loop sha256 (js @ [j]) seen seenF uniq vis =
       Inr (v @ [j'],
            if job_id j' \<in> job_id ` set u \<or> fingerprint j' \<in> fingerprint ` set u
            then u else u @ [j'])"
  using assms(1,2)
proof (induction js arbitrary: seen seenF uniq vis)
  case Nil
  then show ?case using assms(3) by simp
next
  case (Cons x xs)
  obtain x' where x': "assign_identity sha256 x = Inr x'"
    using assign_identity_total by blast
  show ?case
  proof (cases "job_id x' \<in> seen \<or> fingerprint x' \<in> seenF")
    case True
    then show ?thesis using x' Cons.IH [OF Cons.prems, of "vis @ [x']"] by simp
  next
    case False
    have a: "insert (job_id x') seen = job_id ` set (uniq @ [x'])"
      and b: "insert (fingerprint x') seenF = fingerprint ` set (uniq @ [x'])"
      using Cons.prems by auto
    show ?thesis using x' False Cons.IH [OF a b, of "vis @ [x']"] by simp
  qed
qed

lemma filterDuplicates_snoc:
  assumes "assign_identity sha256 j = Inr j'"
  shows "\<exists>v u. filterDuplicates sha256 jobs = Inr (v, u) \<and>
     filterDuplicates sha256 (jobs @ [j]) =
       Inr (v @ [j'],
            if job_id j' \<in> job_id ` set u \<or> fingerprint j' \<in> fingerprint ` set u
            then u else u @ [j'])"
  unfolding filterDuplicates_def
  by (rule filterDuplicates_loop_snoc [OF _ _ assms]) simp_all

lemma filterDuplicates_inv:
  "\<exists>v u. filterDuplicates sha256 jobs = Inr (v, u) \<and>
     list_all2 (\<lambda>x x'. assign_identity sha256 x = Inr x') jobs v \<and>
     subseq u v \<and> distinct (map job_id u) \<and> distinct (map fingerprint u) \<and>
     (jobs \<noteq> [] \<longrightarrow> u \<noteq> [] \<and> hd u = hd v)"
proof (induction jobs rule: rev_induct)
  case Nil
  then show ?case by (simp add: filterDuplicates_def)
next
  case (snoc j jobs)
  obtain j' where j': "assign_identity sha256 j = Inr j'"
    using assign_identity_total by blast
  from filterDuplicates_snoc [OF j', of jobs] obtain v u where
    vu: "filterDuplicates sha256 jobs = Inr (v, u)" and
    s: "filterDuplicates sha256 (jobs @ [j]) =
       Inr (v @ [j'],
            if job_id j' \<in> job_id ` set u \<or> fingerprint j' \<in> fingerprint ` set u
            then u else u @ [j'])"
    by blast
  from snoc.IH vu have
    l: "list_all2 (\<lambda>x x'. assign_identity sha256 x = Inr x') jobs v" and
    q: "subseq u v" and di: "distinct (map job_id u)" and df: "distinct (map fingerprint u)" and
    h: "jobs \<noteq> [] \<longrightarrow> u \<noteq> [] \<and> hd u = hd v"
    by auto
  have l': "list_all2 (\<lambda>x x'. assign_identity sha256 x = Inr x') (jobs @ [j]) (v @ [j'])"
    using l j' by (simp add: list_all2_appendI)
  have e: "jobs = [] \<Longrightarrow> v = [] \<and> u = []" using vu by (simp add: filterDuplicates_def)
  have n: "jobs \<noteq> [] \<Longrightarrow> v \<noteq> []" using l by (auto dest: list_all2_lengthD)
  show ?case
  proof (cases "job_id j' \<in> job_id ` set u \<or> fingerprint j' \<in> fingerprint ` set u")
    case True
    then have r: "filterDuplicates sha256 (jobs @ [j]) = Inr (v @ [j'], u)" using s by simp
    have "subseq u (v @ [j'])" using q by (rule subseq_rev_drop_many)
    moreover have "u \<noteq> [] \<and> hd u = hd (v @ [j'])" using True h e n by (cases "jobs = []") auto
    ultimately show ?thesis using r l' di df by simp
  next
    case False
    then have r: "filterDuplicates sha256 (jobs @ [j]) = Inr (v @ [j'], u @ [j'])" using s by simp
    have "subseq (u @ [j']) (v @ [j'])" using q by (rule list_emb_append_mono) simp
    moreover have "hd (u @ [j']) = hd (v @ [j'])" using h e n by (cases "jobs = []") auto
    moreover have "distinct (map job_id (u @ [j']))" "distinct (map fingerprint (u @ [j']))"
      using False di df by auto
    ultimately show ?thesis using r l' by simp
  qed
qed

lemma demo_assign:
  "assign_identity sha256 demo_a = Inr demo_a"
  "assign_identity sha256 demo_b = Inr demo_b"
  "assign_identity sha256 demo_c = Inr demo_c"
  by (simp_all add: assign_identity_def demo_a_def demo_b_def demo_c_def empty_job_def)

text \<open>
  C4, as stated, fails: the loop records an id and a fingerprint only when it keeps the
  job. In the input \<open>[a, b, c]\<close> the job \<open>b\<close> is dropped for its fingerprint, which is that
  of \<open>a\<close>, so its id is never recorded; \<open>c\<close> has the id of \<open>b\<close>, an id that occurred earlier
  in the pass, and is kept all the same, while \<open>b\<close>, the first job with that id, is not.
\<close>

theorem filterDuplicates_counterexample:
  "job_id demo_c = job_id demo_b \<and>
   filterDuplicates (\<lambda>s. []) [demo_a, demo_b, demo_c] =
     Inr ([demo_a, demo_b, demo_c], [demo_a, demo_c])"
  by (simp add: filterDuplicates_def demo_assign)
    (simp add: demo_a_def demo_b_def demo_c_def empty_job_def)

text \<open>
  C4, amended. \<open>filterDuplicates\<close> never throws. It visits the jobs once, in order; every
  job visited, kept or not, leaves the loop with \<open>id\<close> and \<open>fingerprint\<close> assigned where
  they were missing or empty and otherwise unchanged. The result is a subsequence of the
  visited jobs with pairwise distinct ids and pairwise distinct fingerprints, and it starts
  with the first job. A further job \<open>j\<close> is dropped exactly when its id or its fingerprint
  is that of a job kept before it; in particular it is kept when neither occurs in any job
  before it.
\<close>

theorem filterDuplicates_spec:
  "\<exists>visited unique j'.
     filterDuplicates sha256 jobs = Inr (visited, unique) \<and>
     assign_identity sha256 j = Inr j' \<and>
     list_all2 (\<lambda>x x'. assign_identity sha256 x = Inr x') jobs visited \<and>
     (\<exists>i f. generateJobId sha256 (Some j) = Inr i \<and> generateFingerprint sha256 (Some j) = Inr f \<and>
        j' = j\<lparr>job_id := (if truthy (job_id j) then job_id j else Some i),
               fingerprint := (if truthy (fingerprint j) then fingerprint j else Some f)\<rparr>) \<and>
     subseq unique visited \<and>
     distinct (map job_id unique) \<and> distinct (map fingerprint unique) \<and>
     (jobs \<noteq> [] \<longrightarrow> unique \<noteq> [] \<and> hd unique = hd visited) \<and>
     filterDuplicates sha256 (jobs @ [j]) =
       Inr (visited @ [j'],
            if job_id j' \<in> job_id ` set unique \<or> fingerprint j' \<in> fingerprint ` set unique
            then unique else unique @ [j']) \<and>
     (job_id j' \<notin> job_id ` set visited \<and> fingerprint j' \<notin> fingerprint ` set visited \<longrightarrow>
        filterDuplicates sha256 (jobs @ [j]) = Inr (visited @ [j'], unique @ [j']))"
proof -
  from assign_identity_eq [of sha256 j] obtain i f where
    g: "generateJobId sha256 (Some j) = Inr i" "generateFingerprint sha256 (Some j) = Inr f" and
    a: "assign_identity sha256 j =
       Inr (j\<lparr>job_id := (if truthy (job_id j) then job_id j else Some i),
              fingerprint := (if truthy (fingerprint j) then fingerprint j else Some f)\<rparr>)"
    by blast
  let ?j' = "j\<lparr>job_id := (if truthy (job_id j) then job_id j else Some i),
              fingerprint := (if truthy (fingerprint j) then fingerprint j else Some f)\<rparr>"
  from filterDuplicates_snoc [OF a, of jobs] obtain v u where
    vu: "filterDuplicates sha256 jobs = Inr (v, u)" and
    s: "filterDuplicates sha256 (jobs @ [j]) =
       Inr (v @ [?j'],
            if job_id ?j' \<in> job_id ` set u \<or> fingerprint ?j' \<in> fingerprint ` set u
            then u else u @ [?j'])"
    by blast
  from filterDuplicates_inv [of sha256 jobs] vu have
    l: "list_all2 (\<lambda>x x'. assign_identity sha256 x = Inr x') jobs v" and
    q: "subseq u v" and di: "distinct (map job_id u)" and df: "distinct (map fingerprint u)" and
    h: "jobs \<noteq> [] \<longrightarrow> u \<noteq> [] \<and> hd u = hd v"
    by auto
  have sub: "set u \<subseteq> set v" using q by (auto dest: list_emb_set)
  have first: "job_id ?j' \<notin> job_id ` set v \<and> fingerprint ?j' \<notin> fingerprint ` set v \<longrightarrow>
        filterDuplicates sha256 (jobs @ [j]) = Inr (v @ [?j'], u @ [?j'])"
  proof
    assume n: "job_id ?j' \<notin> job_id ` set v \<and> fingerprint ?j' \<notin> fingerprint ` set v"
    then have "\<not> (job_id ?j' \<in> job_id ` set u \<or> fingerprint ?j' \<in> fingerprint ` set u)"
      using sub by blast
    then show "filterDuplicates sha256 (jobs @ [j]) = Inr (v @ [?j'], u @ [?j'])"
      using s by presburger
  qed
  show ?thesis
    apply (rule exI [of _ v])
    apply (rule exI [of _ u])
    apply (rule exI [of _ ?j'])
    using vu a l g q di df h s first by blast
qed

theorem filterDuplicates_spec_witness:
  "filterDuplicates (\<lambda>s. ''0123456789abcdef'') [demo_a, demo_b] = Inr ([demo_a, demo_b], [demo_a]) \<and>
   filterDuplicates (\<lambda>s. ''0123456789abcdef'') [demo_a, demo_c] =
     Inr ([demo_a, demo_c], [demo_a, demo_c])"
proof -
  let ?sha = "\<lambda>s :: string. ''0123456789abcdef''"
  have one: "filterDuplicates ?sha [demo_a] = Inr ([demo_a], [demo_a])"
    by (simp add: filterDuplicates_def demo_assign)
  have ids: "fingerprint demo_b = fingerprint demo_a" "job_id demo_c \<noteq> job_id demo_a"
    "fingerprint demo_c \<noteq> fingerprint demo_a"
    by (simp_all add: demo_a_def demo_b_def demo_c_def empty_job_def)
  have b: "filterDuplicates ?sha ([demo_a] @ [demo_b]) = Inr ([demo_a, demo_b], [demo_a])"
    using filterDuplicates_spec [of ?sha "[demo_a]" demo_b] one ids
    by (auto simp: demo_assign)
  have c: "filterDuplicates ?sha ([demo_a] @ [demo_c]) = Inr ([demo_a, demo_c], [demo_a, demo_c])"
    using filterDuplicates_spec [of ?sha "[demo_a]" demo_c] one ids
    by (auto simp: demo_assign)
  show ?thesis using b c by simp
qed

subsection \<open>Fingerprints\<close>

text \<open>
  The fingerprint of the utilities module removes level numerals as well as seniority
  words, and gives the two titles of the specification's example one fingerprint.
\<close>

lemma generateJobFingerprint_example:
  "generateJobFingerprint (empty_job\<lparr>title := Some ''Senior Software Engineer'',
        company_name := Some ''Google'', location := Some ''SF''\<rparr>) = ''google::software engineer::sf'' \<and>
   generateJobFingerprint (empty_job\<lparr>title := Some ''Software Engineer II'',
        company_name := Some ''Google'', location := Some ''SF''\<rparr>) = ''google::software engineer::sf''"
  by code_simp

text \<open>
  Word-bounded replacement works token by token: a blank between two parts of the subject
  separates what happens in them, as long as no alternative contains a blank.
\<close>

lemma lower_char_blank: "lower_char c = CHR '' '' \<longleftrightarrow> c = CHR '' ''"
proof -
  have "map_of (zip upper_chars lower_chars) c = Some l \<Longrightarrow> l \<noteq> CHR '' ''" for l
    by (auto simp: upper_chars_def lower_chars_def split: if_splits)
  moreover have "map_of (zip upper_chars lower_chars) CHR '' '' = None"
    by (simp add: upper_chars_def lower_chars_def)
  ultimately show ?thesis by (auto simp: lower_char_def split: option.splits)
qed

lemma fold_case_append: "fold_case ci (s @ t) = fold_case ci s @ fold_case ci t"
  by (simp add: fold_case_def toLowerCase_def)

lemma fold_case_length [simp]: "length (fold_case ci s) = length s"
  by (simp add: fold_case_def toLowerCase_def)

lemma fold_case_blank: "fold_case ci (CHR '' '' # t) = CHR '' '' # fold_case ci t"
  by (simp add: fold_case_def toLowerCase_def lower_char_blank)

lemma prefix_blank_seam:
  assumes "CHR '' '' \<notin> set k"
  shows "prefix k (a @ CHR '' '' # b) \<longleftrightarrow> prefix k a"
proof
  assume p: "prefix k (a @ CHR '' '' # b)"
  show "prefix k a"
  proof (rule ccontr)
    assume n: "\<not> prefix k a"
    from p have "prefix k a \<or> (\<exists>us. k = a @ us \<and> prefix us (CHR '' '' # b))"
      by (simp add: prefix_append)
    then obtain us where u: "k = a @ us" "prefix us (CHR '' '' # b)" using n by blast
    then have "us \<noteq> []" using n by auto
    then have "hd us = CHR '' ''" using u(2) by (cases us) auto
    then have "CHR '' '' \<in> set k" using u(1) \<open>us \<noteq> []\<close> by (cases us) auto
    then show False using assms by simp
  qed
next
  assume "prefix k a"
  then show "prefix k (a @ CHR '' '' # b)" by (rule prefix_prefix)
qed

lemma is_word_blank [simp]: "\<not> is_word CHR '' ''"
  by (simp add: is_word_def lower_chars_def upper_chars_def digit_chars_def)

lemma alt_ok_seam:
  assumes "CHR '' '' \<notin> set k"
  shows "alt_ok ci (a @ CHR '' '' # b) k \<longleftrightarrow> alt_ok ci a k"
proof (cases "k \<noteq> [] \<and> prefix k (fold_case ci a)")
  case False
  then show ?thesis
    using prefix_blank_seam [OF assms, of "fold_case ci a" "fold_case ci b"]
    by (auto simp: alt_ok_def fold_case_append fold_case_blank)
next
  case True
  then have le: "length k \<le> length a" using prefix_length_le by fastforce
  have t: "take (length k) (a @ CHR '' '' # b) = take (length k) a" using le by simp
  have w: "word_opt (head_opt (drop (length k) (a @ CHR '' '' # b))) =
           word_opt (head_opt (drop (length k) a))"
  proof (cases "length k = length a")
    case True
    then show ?thesis by simp
  next
    case False
    then have "length k < length a" using le by simp
    then obtain x xs where "drop (length k) a = x # xs"
      by (cases "drop (length k) a") auto
    then show ?thesis using le by simp
  qed
  show ?thesis
    using True prefix_blank_seam [OF assms, of "fold_case ci a" "fold_case ci b"] t w
    by (simp add: alt_ok_def fold_case_append fold_case_blank boundary_def)
qed

lemma find_cong_set: "(\<And>x. x \<in> set xs \<Longrightarrow> P x = Q x) \<Longrightarrow> find P xs = find Q xs"
  by (induction xs) auto

lemma m_bounded_seam:
  assumes "\<forall>k \<in> set alts. CHR '' '' \<notin> set k" and "a \<noteq> []"
  shows "m_bounded ci alts p (a @ CHR '' '' # b) = m_bounded ci alts p a"
proof -
  have "find (alt_ok ci (a @ CHR '' '' # b)) alts = find (alt_ok ci a) alts"
    by (rule find_cong_set) (use assms(1) alt_ok_seam in blast)
  moreover have "head_opt (a @ CHR '' '' # b) = head_opt a" using assms(2) by (cases a) auto
  ultimately show ?thesis by (simp add: m_bounded_def)
qed

lemma m_bounded_length:
  assumes "m_bounded ci alts p s = Some n"
  shows "0 < n \<and> n \<le> length s"
proof -
  from assms obtain k where k: "find (alt_ok ci s) alts = Some k" "n = length k"
    by (auto simp: m_bounded_def split: if_splits)
  then have "alt_ok ci s k" by (auto simp: find_Some_iff)
  then have "k \<noteq> []" "prefix k (fold_case ci s)" by (auto simp: alt_ok_def)
  then show ?thesis using k(2) prefix_length_le by fastforce
qed

lemma m_bounded_blank:
  assumes "\<forall>k \<in> set alts. CHR '' '' \<notin> set k"
  shows "m_bounded ci alts p (CHR '' '' # b) = None"
proof -
  have "\<not> alt_ok ci (CHR '' '' # b) k" if "k \<in> set alts" for k
  proof
    assume "alt_ok ci (CHR '' '' # b) k"
    then have "k \<noteq> []" "prefix k (CHR '' '' # fold_case ci b)"
      by (auto simp: alt_ok_def fold_case_blank)
    then have "hd k = CHR '' ''" by (cases k) auto
    then show False using assms that \<open>k \<noteq> []\<close> by (cases k) auto
  qed
  then have "find (alt_ok ci (CHR '' '' # b)) alts = None" by (auto simp: find_None_iff)
  then show ?thesis by (simp add: m_bounded_def)
qed

lemma m_bounded_Nil [simp]: "m_bounded ci alts p [] = None"
proof -
  have "find (alt_ok ci []) alts = None" by (auto simp: find_None_iff alt_ok_def fold_case_def toLowerCase_def)
  then show ?thesis by (simp add: m_bounded_def)
qed

lemma replace_bounded_Nil [simp]: "replace_all (m_bounded ci alts) rep p [] = []"
  by simp

lemma m_bounded_after_blank: "m_bounded ci alts (Some CHR '' '') s = m_bounded ci alts None s"
  by (simp add: m_bounded_def boundary_def)

lemma replace_all_first_call:
  "m p s = m p' s \<Longrightarrow> replace_all m rep p s = replace_all m rep p' s"
  by (cases s) simp_all

lemma replace_bounded_seam:
  assumes "\<forall>k \<in> set alts. CHR '' '' \<notin> set k"
  shows "replace_all (m_bounded ci alts) rep p (a @ CHR '' '' # b) =
         replace_all (m_bounded ci alts) rep p a @ CHR '' '' # replace_all (m_bounded ci alts) rep None b"
proof (induction a arbitrary: p rule: length_induct)
  case (1 a)
  let ?m = "m_bounded ci alts"
  show ?case
  proof (cases a)
    case Nil
    have "replace_all ?m rep (Some CHR '' '') b = replace_all ?m rep None b"
      by (rule replace_all_first_call) (rule m_bounded_after_blank)
    then show ?thesis using Nil m_bounded_blank [OF assms] by simp
  next
    case (Cons c cs)
    have eq: "?m p (c # cs @ CHR '' '' # b) = ?m p (c # cs)"
      using m_bounded_seam [OF assms, of "c # cs" ci p b] by simp
    show ?thesis
    proof (cases "?m p (c # cs)")
      case None
      then show ?thesis using eq Cons 1 by simp
    next
      case (Some n)
      then have n: "0 < n" "n \<le> length (c # cs)" using m_bounded_length by blast+
      then obtain n' where n': "n = Suc n'" "n' \<le> length cs" by (cases n) auto
      have ih: "replace_all ?m rep q (drop n' cs @ CHR '' '' # b) =
         replace_all ?m rep q (drop n' cs) @ CHR '' '' # replace_all ?m rep None b" for q
        using 1 Cons by simp
      have l: "last (take (Suc n') (c # cs @ CHR '' '' # b)) = last (take (Suc n') (c # cs))"
        using n'(2) by simp
      show ?thesis
        using eq Some Cons n' ih l by (simp del: take_Suc_Cons)
    qed
  qed
qed


lemma replace_delete_subset: "set (replace_all m [] p s) \<subseteq> set s"
proof (induction s arbitrary: p rule: length_induct)
  case (1 s)
  show ?case
  proof (cases s)
    case Nil
    then show ?thesis by (simp split: option.split)
  next
    case (Cons c cs)
    have ih: "set (replace_all m [] q t) \<subseteq> set t" if "length t \<le> length cs" for q t
      using 1 Cons that by simp
    show ?thesis
    proof (cases "m p (c # cs)")
      case None
      then show ?thesis using Cons ih [of cs "Some c"] by auto
    next
      case (Some n)
      show ?thesis
      proof (cases n)
        case 0
        then show ?thesis using Some Cons ih [of cs "Some c"] by auto
      next
        case (Suc k)
        have "set (drop k cs) \<subseteq> set cs" by (rule set_drop_subset)
        then show ?thesis
          using Some Suc Cons ih [of "drop k cs" "Some (last (take (Suc k) (c # cs)))"]
          by (auto simp del: take_Suc_Cons)
      qed
    qed
  qed
qed

lemma m_clause_no_hyphen: "CHR ''-'' \<notin> set s \<Longrightarrow> m_clause p s = None"
proof -
  assume h: "CHR ''-'' \<notin> set s"
  have "set (dropWhile is_space s) \<subseteq> set s" by (rule set_dropWhileD [THEN subsetI])
  then show ?thesis using h by (auto simp: m_clause_def split: list.split)
qed

lemma replace_clause_no_hyphen: "CHR ''-'' \<notin> set s \<Longrightarrow> replace_first m_clause [] p s = s"
  by (induction s arbitrary: p) (simp_all add: m_clause_no_hyphen)

lemma replace_plus_snoc:
  assumes "P a"
  shows "replace_all (m_plus P) rep None (y @ [a]) =
     (if y \<noteq> [] \<and> P (last y) then replace_all (m_plus P) rep None y
      else replace_all (m_plus P) rep None y @ rep)"
proof (induction y rule: length_induct)
  case (1 y)
  let ?R = "replace_all (m_plus P) rep None"
  show ?case
  proof (cases y)
    case Nil
    then show ?thesis using assms by (simp add: replace_plus_Cons del: replace_all.simps)
  next
    case (Cons c cs)
    show ?thesis
    proof (cases "P c")
      case False
      have "?R (cs @ [a]) = (if cs \<noteq> [] \<and> P (last cs) then ?R cs else ?R cs @ rep)"
        using 1 Cons by simp
      then show ?thesis using False Cons by (simp add: replace_plus_Cons del: replace_all.simps)
    next
      case True
      show ?thesis
      proof (cases "\<forall>x \<in> set cs. P x")
        case all: True
        then have d: "dropWhile P (cs @ [a]) = []" "dropWhile P cs = []" using assms by simp_all
        have l: "P (last (c # cs))" using all True by (cases cs rule: rev_cases) auto
        have "?R ((c # cs) @ [a]) = rep"
          using True by (simp add: replace_plus_Cons d del: dropWhile_append dropWhile_eq_Nil_conv replace_all.simps)
        moreover have "?R (c # cs) = rep"
          using True by (simp add: replace_plus_Cons d del: dropWhile_eq_Nil_conv replace_all.simps)
        ultimately show ?thesis using l Cons by simp
      next
        case notall: False
        let ?w = "dropWhile P cs"
        have w: "?w \<noteq> []" using notall by simp
        from notall obtain x where "x \<in> set cs" "\<not> P x" by blast
        then have dw: "dropWhile P (cs @ [a]) = ?w @ [a]" by (rule dropWhile_append1)
        have "length ?w < length y" using Cons by (simp add: le_imp_less_Suc length_dropWhile_le)
        then have ih: "?R (?w @ [a]) = (if ?w \<noteq> [] \<and> P (last ?w) then ?R ?w else ?R ?w @ rep)"
          using 1 by blast
        have "cs \<noteq> []" using notall by auto
        have "last ?w = last cs" by (metis w takeWhile_dropWhile_id last_appendR)
        then have l: "last (c # cs) = last ?w" using \<open>cs \<noteq> []\<close> by simp
        have "?R ((c # cs) @ [a]) = rep @ ?R (?w @ [a])"
          using True by (simp add: replace_plus_Cons dw del: dropWhile_append replace_all.simps)
        moreover have "?R (c # cs) = rep @ ?R ?w"
          using True by (simp add: replace_plus_Cons del: replace_all.simps)
        ultimately show ?thesis using ih w l Cons by simp
      qed
    qed
  qed
qed

lemma trim_snoc_space: "is_space a \<Longrightarrow> trim (z @ [a]) = trim z"
proof (cases "\<forall>x \<in> set z. is_space x")
  case True
  assume a: "is_space a"
  have "dropWhile is_space (z @ [a]) = []" "dropWhile is_space z = []"
    using True a by simp_all
  then show ?thesis by (simp add: trim_def del: dropWhile_append dropWhile_eq_Nil_conv)
next
  case False
  assume a: "is_space a"
  from False obtain x where "x \<in> set z" "\<not> is_space x" by blast
  then have "dropWhile is_space (z @ [a]) = dropWhile is_space z @ [a]"
    by (rule dropWhile_append1)
  then show ?thesis using a by (simp add: trim_def)
qed

lemma trim_Cons_space: "is_space a \<Longrightarrow> trim (a # z) = trim z"
  by (simp add: trim_def)

lemma is_space_blank [simp]: "is_space CHR '' ''"
  by (simp add: is_space_def)

lemma trim_collapse_trail:
  "trim (collapse_spaces '' '' (y @ '' '')) = trim (collapse_spaces '' '' y)"
  using replace_plus_snoc [of is_space "CHR '' ''" "'' ''" y]
    trim_snoc_space [of "CHR '' ''" "collapse_spaces '' '' y"]
  by (auto simp: collapse_spaces_def simp del: replace_all.simps)

lemma trim_collapse_lead:
  "trim (collapse_spaces '' '' (CHR '' '' # y)) = trim (collapse_spaces '' '' y)"
proof (cases y)
  case Nil
  then show ?thesis
    by (simp add: collapse_spaces_def replace_plus_Cons trim_def del: replace_all.simps)
next
  case (Cons c cs)
  show ?thesis
  proof (cases "is_space c")
    case True
    then show ?thesis using Cons
      by (simp add: collapse_spaces_def replace_plus_Cons trim_Cons_space del: replace_all.simps)
  next
    case False
    then show ?thesis using Cons
      by (simp add: collapse_spaces_def replace_plus_Cons trim_Cons_space del: replace_all.simps)
  qed
qed


lemma lower_char_cases: "lower_char c = c \<or> (c \<in> set upper_chars \<and> lower_char c \<in> set lower_chars)"
proof (cases "map_of (zip upper_chars lower_chars) c")
  case None
  then show ?thesis by (simp add: lower_char_def)
next
  case (Some l)
  then have "(c, l) \<in> set (zip upper_chars lower_chars)" by (rule map_of_SomeD)
  then have "c \<in> set upper_chars" "l \<in> set lower_chars" by (auto dest: set_zip_leftD set_zip_rightD)
  then show ?thesis using Some by (simp add: lower_char_def)
qed

lemma lower_char_hyphen: "lower_char c = CHR ''-'' \<longleftrightarrow> c = CHR ''-''"
proof -
  have n: "CHR ''-'' \<notin> set lower_chars" by (simp add: lower_chars_def)
  have e: "lower_char CHR ''-'' = CHR ''-''"
    by (simp add: lower_char_def upper_chars_def lower_chars_def)
  show ?thesis using lower_char_cases [of c] n e by metis
qed

lemma lower_char_space: "is_space (lower_char c) \<longleftrightarrow> is_space c"
proof -
  have l: "\<forall>x \<in> set lower_chars. \<not> is_space x" by (simp add: lower_chars_def is_space_def)
  have u: "\<forall>x \<in> set upper_chars. \<not> is_space x" by (simp add: upper_chars_def is_space_def)
  show ?thesis using lower_char_cases [of c] l u by metis
qed

lemma trim_id:
  assumes "s \<noteq> []" and "\<not> is_space (hd s)" and "\<not> is_space (last s)"
  shows "trim s = s"
proof -
  from assms(1,2) have a: "dropWhile is_space s = s" by (cases s) auto
  from assms(1) obtain ys y where y: "s = ys @ [y]" by (cases s rule: rev_cases) auto
  then have "\<not> is_space y" using assms(3) by simp
  then have "dropWhile is_space (rev s) = rev s" using y by simp
  then show ?thesis using a by (simp add: trim_def)
qed

lemma seniority_words_no_blank: "\<forall>k \<in> set seniority_words. CHR '' '' \<notin> set k"
  by (simp add: seniority_words_def)

lemma level_numerals_no_blank: "\<forall>k \<in> set level_numerals. CHR '' '' \<notin> set k"
  by (simp add: level_numerals_def)

lemma strip_words_examples:
  "replace_all (m_bounded True seniority_words) [] None ''senior'' = []"
  "replace_all (m_bounded True seniority_words) [] None ''ii'' = ''ii''"
  "replace_all (m_bounded False level_numerals) [] None ''ii'' = []"
  by code_simp+

lemma fingerprint_title_no_hyphen:
  assumes "CHR ''-'' \<notin> set x"
  shows "fingerprint_title x =
     trim (collapse_spaces '' '' (replace_all (m_bounded False level_numerals) [] None
       (replace_all (m_bounded True seniority_words) [] None x)))"
proof -
  let ?y = "replace_all (m_bounded False level_numerals) [] None
       (replace_all (m_bounded True seniority_words) [] None x)"
  have "set ?y \<subseteq> set x" using replace_delete_subset by (rule subset_trans) (rule replace_delete_subset)
  then have "CHR ''-'' \<notin> set ?y" using assms by blast
  then show ?thesis by (simp add: fingerprint_title_def replace_clause_no_hyphen)
qed

lemma fingerprint_title_senior:
  assumes "CHR ''-'' \<notin> set x"
  shows "fingerprint_title (''senior '' @ x) = fingerprint_title x"
proof -
  let ?S = "replace_all (m_bounded True seniority_words) [] None"
  let ?N = "replace_all (m_bounded False level_numerals) [] None"
  have h: "CHR ''-'' \<notin> set (''senior '' @ x)" using assms by simp
  have "?S (''senior'' @ CHR '' '' # x) = ?S ''senior'' @ CHR '' '' # ?S x"
    by (rule replace_bounded_seam [OF seniority_words_no_blank])
  then have s: "?S (''senior '' @ x) = CHR '' '' # ?S x"
    by (simp add: strip_words_examples del: replace_all.simps)
  have "?N ([] @ CHR '' '' # ?S x) = ?N [] @ CHR '' '' # ?N (?S x)"
    by (rule replace_bounded_seam [OF level_numerals_no_blank])
  then have n: "?N (CHR '' '' # ?S x) = CHR '' '' # ?N (?S x)"
    by (simp del: replace_all.simps)
  show ?thesis
    unfolding fingerprint_title_no_hyphen [OF h] fingerprint_title_no_hyphen [OF assms] s n
    by (rule trim_collapse_lead)
qed

lemma fingerprint_title_numeral:
  assumes "CHR ''-'' \<notin> set x"
  shows "fingerprint_title (x @ '' ii'') = fingerprint_title x"
proof -
  let ?S = "replace_all (m_bounded True seniority_words) [] None"
  let ?N = "replace_all (m_bounded False level_numerals) [] None"
  have h: "CHR ''-'' \<notin> set (x @ '' ii'')" using assms by simp
  have "?S (x @ CHR '' '' # ''ii'') = ?S x @ CHR '' '' # ?S ''ii''"
    by (rule replace_bounded_seam [OF seniority_words_no_blank])
  then have s: "?S (x @ '' ii'') = ?S x @ CHR '' '' # ''ii''"
    by (simp add: strip_words_examples del: replace_all.simps)
  have "?N (?S x @ CHR '' '' # ''ii'') = ?N (?S x) @ CHR '' '' # ?N ''ii''"
    by (rule replace_bounded_seam [OF level_numerals_no_blank])
  then have n: "?N (?S x @ CHR '' '' # ''ii'') = ?N (?S x) @ '' ''"
    by (simp add: strip_words_examples del: replace_all.simps)
  show ?thesis
    unfolding fingerprint_title_no_hyphen [OF h] fingerprint_title_no_hyphen [OF assms] s n
    by (rule trim_collapse_trail)
qed

text \<open>
  In the utilities module this holds for every base title \<open>X\<close> without a hyphen that
  neither starts nor ends with white space: the jobs titled \<open>Senior X\<close> and \<open>X II\<close>, with
  the same company and location fields, have one fingerprint.
\<close>

lemma generateJobFingerprint_variants:
  assumes "CHR ''-'' \<notin> set X" and "X \<noteq> []" and "\<not> is_space (hd X)" and "\<not> is_space (last X)"
    and "or_js (title j1) (job_title j1) = Some (''Senior '' @ X)"
    and "or_js (title j2) (job_title j2) = Some (X @ '' II'')"
    and "company_name j1 = company_name j2" and "employer_name j1 = employer_name j2"
    and "company j1 = company j2" and "locations j1 = locations j2"
    and "job_city j1 = job_city j2" and "location j1 = location j2"
  shows "generateJobFingerprint j1 = generateJobFingerprint j2"
proof -
  let ?x = "toLowerCase X"
  have x: "CHR ''-'' \<notin> set ?x"
  proof
    assume "CHR ''-'' \<in> set ?x"
    then obtain c where "c \<in> set X" "lower_char c = CHR ''-''"
      by (auto simp: toLowerCase_def)
    then show False using assms(1) by (simp add: lower_char_hyphen)
  qed
  have ne: "?x \<noteq> []" using assms(2) by (simp add: toLowerCase_def)
  have hd: "\<not> is_space (hd ?x)" using assms(2,3) by (simp add: toLowerCase_def hd_map lower_char_space)
  have la: "\<not> is_space (last ?x)" using assms(2,4) by (simp add: toLowerCase_def last_map lower_char_space)
  have l1: "toLowerCase (''Senior '' @ X) = ''senior '' @ ?x"
    by (simp add: toLowerCase_def lower_char_def upper_chars_def lower_chars_def)
  have l2: "toLowerCase (X @ '' II'') = ?x @ '' ii''"
    by (simp add: toLowerCase_def lower_char_def upper_chars_def lower_chars_def)
  have t1: "trim (''senior '' @ ?x) = ''senior '' @ ?x"
    using ne la by (intro trim_id) (simp_all add: is_space_def)
  have t2: "trim (?x @ '' ii'') = ?x @ '' ii''"
    using ne hd by (intro trim_id) (simp_all add: is_space_def)
  have "fingerprint_title (trim (toLowerCase (''Senior '' @ X))) =
        fingerprint_title (trim (toLowerCase (X @ '' II'')))"
    unfolding l1 l2 t1 t2 fingerprint_title_senior [OF x] fingerprint_title_numeral [OF x] ..
  then show ?thesis
    unfolding generateJobFingerprint_def first_location_def Let_def assms(5-12) by simp
qed


text \<open>
  The hyphen matters: the rule for a trailing \<open>- clause\<close> runs before the final \<open>trim\<close>, so
  after \<open>senior\<close> is removed from \<open>senior - backend\<close> the rest is taken for a clause and
  dropped, while \<open>- backend\<close> at the very start of a title is not.
\<close>

lemma generateJobFingerprint_clause_corner:
  "generateJobFingerprint (empty_job\<lparr>title := Some ''Senior - Backend''\<rparr>) = ''::::'' \<and>
   generateJobFingerprint (empty_job\<lparr>title := Some ''- Backend II''\<rparr>) = ''::- backend::''"
  by code_simp

text \<open>
  C5. The titles \<open>Senior X\<close> and \<open>X II\<close> of one company and location should get one
  fingerprint. \<open>generateJobFingerprint\<close> of the job processor removes the seniority words
  only: it has no rule for \<open>II\<close>, and the two fingerprints differ.
\<close>

theorem generateJobFingerprint_jp_keeps_numeral:
  "generateJobFingerprint_jp (empty_job\<lparr>job_title := Some ''Senior Software Engineer'',
        employer_name := Some ''Google'', job_city := Some ''SF''\<rparr>) = ''google::software engineer::sf'' \<and>
   generateJobFingerprint_jp (empty_job\<lparr>job_title := Some ''Software Engineer II'',
        employer_name := Some ''Google'', job_city := Some ''SF''\<rparr>) = ''google::software engineer ii::sf''"
  by code_simp

end
